theory Spec2Isabelle
  imports Main "HOL-Library.List_Lexorder" "HOL-Library.Char_ord"
begin

chapter \<open>The p2 replication controller and its transaction buffer\<close>

section \<open>Package transaction: the buffer, contexts and commits\<close>

text \<open>
  The file \<^verbatim>\<open>pkg/store/consul/transaction/transaction.go\<close> (the functions \<^verbatim>\<open>New\<close>,
  \<^verbatim>\<open>Add\<close>, \<^verbatim>\<open>getTxnFromContext\<close>, \<^verbatim>\<open>Commit\<close>, \<^verbatim>\<open>MustCommit\<close>, \<^verbatim>\<open>CommitWithRetries\<close>
  and the three error values) is not among the sources; only its test file
  \<^verbatim>\<open>transaction_test.go\<close> is. The functions of this section are modelled from
  section 4.A of the specification, and where the test file pins the behaviour down
  (what a derived context inherits, the limit of 64, the calls to the store) they
  follow the test file, of which \<^verbatim>\<open>TestAdd\<close> and \<^verbatim>\<open>TestContextInheritsOperations\<close> are
  translated below.
\<close>

text \<open>
  Errors as values. The first three are the error values of package transaction,
  \<open>NoCurrentManifest\<close> is \<^verbatim>\<open>pods.NoCurrentManifest\<close>, \<open>NoStatus\<close> is an error for which
  \<^verbatim>\<open>statusstore.IsNoStatus\<close> holds. The messages that the controller formats itself
  (\<^verbatim>\<open>util.Errorf\<close>, \<^verbatim>\<open>fmt.Sprintf\<close>) keep their arguments instead of the text;
  \<open>External\<close> is any error of a collaborator.
\<close>

datatype error =
    ErrTooManyOperations
  | ErrAlreadyCommitted
  | ErrNoTransaction
  | NoCurrentManifest
  | NoStatus
  | TxnViolation "string list"
  | NotEnoughNodes int nat nat nat
  | UnableToUnschedule int nat
  | NonCattleIneligible nat "string list"
  | NeedIneligible
  | CouldNotDeallocate string error
  | UnableToAllocate "error option"
  | CouldNotWriteStatus error
  | CouldNotCommitCAS error
  | CouldNotScheduleNode string "string list"
  | External string

text \<open>\<^verbatim>\<open>api.KVTxnOp\<close> of the consul client, with the three fields the tests set.\<close>

record KVTxnOp =
  Verb :: string
  Key :: string
  Value :: string

definition emptyOp :: KVTxnOp where
  "emptyOp = \<lparr>Verb = [], Key = [], Value = []\<rparr>"

text \<open>\<^verbatim>\<open>api.KVTxnResponse\<close>: only the \<^verbatim>\<open>Errors\<close> of a rollback are read.\<close>

record KVTxnResponse =
  Errors :: "string list"

text \<open>What \<^verbatim>\<open>Txner.Txn\<close> returns, without the query meta data: \<^verbatim>\<open>(ok, response, err)\<close>.\<close>

type_synonym txn_result = "bool \<times> KVTxnResponse option \<times> error option"

text \<open>
  Modelled from the spec: the transaction that a context carries, a buffer of
  operations (the test file reads it as \<^verbatim>\<open>*txn.kvOps\<close>) and the committed mark.
\<close>

record 'op tx =
  kvOps :: "'op list"
  alreadyCommitted :: bool

text \<open>
  Contexts point to their transaction, so that what two contexts share is visible:
  the store of transactions is a list, a context holds the index of its transaction
  (\<open>None\<close> for \<^verbatim>\<open>context.Background()\<close> and every context without one).
\<close>

record Context =
  txref :: "nat option"

type_synonym 'op txstore = "'op tx list"

definition Background :: Context where
  "Background = \<lparr>txref = None\<rparr>"

text \<open>
  Modelled from the spec: \<^verbatim>\<open>getTxnFromContext\<close>, which fails with
  \<^verbatim>\<open>ErrNoTransaction\<close> on a context that carries no transaction.
\<close>

definition getTxnFromContext :: "Context \<Rightarrow> 'op txstore \<Rightarrow> error + 'op tx" where
  "getTxnFromContext ctx h =
     (case txref ctx of
        None \<Rightarrow> Inl ErrNoTransaction
      | Some a \<Rightarrow> if a < length h then Inr (h ! a) else Inl ErrNoTransaction)"

text \<open>
  Modelled from the spec: \<^verbatim>\<open>New(parent)\<close>, a context with a transaction attached. If
  the parent carries a transaction the new buffer starts with the parent's
  operations. The specification calls this the same underlying buffer; the test
  \<^verbatim>\<open>TestContextInheritsOperations\<close> of the sources requires a copy (after an \<^verbatim>\<open>Add\<close>
  through the derived context it reads 2 operations there and 1 in the parent, after
  two more through the parent 3 against 2), and the sources decide.
\<close>

definition New :: "Context \<Rightarrow> 'op txstore \<Rightarrow> Context \<times> 'op txstore" where
  "New parent h =
     (let inherited = (case getTxnFromContext parent h of
                         Inl _ \<Rightarrow> []
                       | Inr t \<Rightarrow> kvOps t)
      in (\<lparr>txref = Some (length h)\<rparr>,
          h @ [\<lparr>kvOps = inherited, alreadyCommitted = False\<rparr>]))"

text \<open>
  Modelled from the spec: \<^verbatim>\<open>Add(ctx, op)\<close>. It fails with \<^verbatim>\<open>ErrNoTransaction\<close> on a
  context without a transaction, with \<^verbatim>\<open>ErrAlreadyCommitted\<close> after a commit and with
  \<^verbatim>\<open>ErrTooManyOperations\<close> once the buffer holds 64 operations (\<^verbatim>\<open>TestAdd\<close>);
  otherwise it appends. \<open>addOp\<close> is the part that works on the transaction; the
  specification does not say which of the last two errors comes first.
\<close>

definition addOp :: "'op tx \<Rightarrow> 'op \<Rightarrow> error + 'op tx" where
  "addOp t op =
     (if alreadyCommitted t then Inl ErrAlreadyCommitted
      else if length (kvOps t) \<ge> 64 then Inl ErrTooManyOperations
      else Inr (t\<lparr>kvOps := kvOps t @ [op]\<rparr>))"

text \<open>Modelled from the spec: \<^verbatim>\<open>Add(ctx, op)\<close> on the transaction of the context.\<close>

definition Add :: "Context \<Rightarrow> 'op \<Rightarrow> 'op txstore \<Rightarrow> error option \<times> 'op txstore" where
  "Add ctx op h =
     (case getTxnFromContext ctx h of
        Inl e \<Rightarrow> (Some e, h)
      | Inr t \<Rightarrow>
          (case addOp t op of
             Inl e \<Rightarrow> (Some e, h)
           | Inr t' \<Rightarrow> (None, h[the (txref ctx) := t'])))"

text \<open>The number of operations observed through a context (\<^verbatim>\<open>len(*txn.kvOps)\<close>).\<close>

definition opCount :: "Context \<Rightarrow> 'op txstore \<Rightarrow> error + nat" where
  "opCount ctx h =
     (case getTxnFromContext ctx h of
        Inl e \<Rightarrow> Inl e
      | Inr t \<Rightarrow> Inr (length (kvOps t)))"

text \<open>A run of \<^verbatim>\<open>Add\<close> calls on one context, keeping the error of each call.\<close>

fun AddAll :: "Context \<Rightarrow> 'op list \<Rightarrow> 'op txstore \<Rightarrow> error option list \<times> 'op txstore" where
  "AddAll ctx [] h = ([], h)"
| "AddAll ctx (op # ops) h =
     (case Add ctx op h of
        (e, h') \<Rightarrow> (case AddAll ctx ops h' of (es, h'') \<Rightarrow> (e # es, h'')))"

text \<open>
  \<^verbatim>\<open>TestAdd\<close>: 64 additions to a new transaction must succeed, the next must fail
  with \<^verbatim>\<open>ErrTooManyOperations\<close>. The value is whether the test passes.
\<close>

definition TestAdd :: bool where
  "TestAdd =
     (case New Background [] of
        (ctx, h) \<Rightarrow>
          (case AddAll ctx (replicate 64 emptyOp) h of
             (errs, h') \<Rightarrow>
               list_all (\<lambda>e. e = None) errs
               \<and> fst (Add ctx emptyOp h') = Some ErrTooManyOperations))"

text \<open>
  \<^verbatim>\<open>TestContextInheritsOperations\<close>, assertion by assertion: the lengths read through
  \<^verbatim>\<open>txn2\<close> and \<^verbatim>\<open>txn\<close> after each step. The test file keeps the pointers \<^verbatim>\<open>txn2\<close> and
  \<^verbatim>\<open>txn\<close>; here they are read through the two contexts again.
\<close>

definition inherit_ctx :: Context where
  "inherit_ctx = fst (New Background ([] :: KVTxnOp txstore))"

definition inherit_h1 :: "KVTxnOp txstore" where
  "inherit_h1 = snd (Add inherit_ctx emptyOp (snd (New Background [])))"

definition inherit_ctx2 :: Context where
  "inherit_ctx2 = fst (New inherit_ctx inherit_h1)"

definition inherit_h2 :: "KVTxnOp txstore" where
  "inherit_h2 = snd (New inherit_ctx inherit_h1)"

definition inherit_h3 :: "KVTxnOp txstore" where
  "inherit_h3 = snd (Add inherit_ctx2 emptyOp inherit_h2)"

definition inherit_h4 :: "KVTxnOp txstore" where
  "inherit_h4 = snd (Add inherit_ctx emptyOp (snd (Add inherit_ctx emptyOp inherit_h3)))"

definition TestContextInheritsOperations :: bool where
  "TestContextInheritsOperations =
     (opCount inherit_ctx2 inherit_h2 = Inr 1
      \<and> fst (Add inherit_ctx2 emptyOp inherit_h2) = None
      \<and> opCount inherit_ctx2 inherit_h3 = Inr 2
      \<and> opCount inherit_ctx inherit_h3 = Inr 1
      \<and> fst (Add inherit_ctx emptyOp inherit_h3) = None
      \<and> fst (Add inherit_ctx emptyOp (snd (Add inherit_ctx emptyOp inherit_h3))) = None
      \<and> opCount inherit_ctx inherit_h4 = Inr 3
      \<and> opCount inherit_ctx2 inherit_h4 = Inr 2)"

text \<open>
  Modelled from the spec: \<^verbatim>\<open>CommitWithRetries(ctx, txner)\<close>. It submits the buffer, also
  an empty one (\<^verbatim>\<open>TestCommitWithRetriesHappy\<close> waits for the call); a call without a transport
  error (success, or a rollback) is returned as it is; after a transport error, return
  \<open>(False, None, Some e)\<close> if the context is cancelled, retry after the back-off
  otherwise. The store is the function \<open>txner\<close> of the number of earlier calls and
  the operations; \<open>cancelled n\<close> says whether the context's \<^verbatim>\<open>Done\<close> channel is closed
  before the back-off that follows call number \<open>n\<close> has elapsed. The loop need not end,
  so it is a partial function; the second component counts the calls to the store.
\<close>

partial_function (option) CommitWithRetries_loop ::
  "(nat \<Rightarrow> 'op list \<Rightarrow> txn_result) \<Rightarrow> (nat \<Rightarrow> bool) \<Rightarrow> 'op list \<Rightarrow> nat \<Rightarrow> (txn_result \<times> nat) option"
where
  "CommitWithRetries_loop txner cancelled ops n =
     (case txner n ops of
        (ok, resp, None) \<Rightarrow> Some ((ok, resp, None), Suc n)
      | (ok, resp, Some e) \<Rightarrow>
          if cancelled n then Some ((False, None, Some e), Suc n)
          else CommitWithRetries_loop txner cancelled ops (Suc n))"

definition CommitWithRetries ::
  "Context \<Rightarrow> (nat \<Rightarrow> 'op list \<Rightarrow> txn_result) \<Rightarrow> (nat \<Rightarrow> bool) \<Rightarrow> 'op txstore \<Rightarrow> (txn_result \<times> nat) option" where
  "CommitWithRetries ctx txner cancelled h =
     (case getTxnFromContext ctx h of
        Inl e \<Rightarrow> Some ((False, None, Some e), 0)
      | Inr t \<Rightarrow> CommitWithRetries_loop txner cancelled (kvOps t) 0)"

text \<open>A reply of the store with a transport error (\<^verbatim>\<open>err != nil\<close>).\<close>

definition transport_error :: "txn_result \<Rightarrow> bool" where
  "transport_error r = (snd (snd r) \<noteq> None)"

text \<open>
  The store and the cancellation of \<^verbatim>\<open>TestCommitWithRetriesRetriesErrorsUntilCanceled\<close>:
  every call fails with a transport error, and the test cancels the context after it
  has seen two calls, so the back-offs after calls 0 and 1 elapse.
\<close>

definition erringTxner :: "nat \<Rightarrow> KVTxnOp list \<Rightarrow> txn_result" where
  "erringTxner n ops = (False, None, Some (External ''a test error occurred''))"

definition cancelledAfterTwo :: "nat \<Rightarrow> bool" where
  "cancelledAfterTwo n = (2 \<le> n)"

section \<open>Package rc: data\<close>

type_synonym NodeName = string
type_synonym PodID = string

text \<open>
  \<^verbatim>\<open>manifest.Manifest\<close> is an interface of a package that is not among the sources; the
  controller calls its methods \<^verbatim>\<open>ID()\<close> and \<^verbatim>\<open>SHA()\<close> only. A manifest is the pair of
  what the two return; \<^verbatim>\<open>SHA()\<close> returns the empty string with its error
  (\<^verbatim>\<open>PodManifest.SHA\<close> in \<^verbatim>\<open>manifest_parser.go\<close>).
\<close>

record Manifest =
  ManifestID :: PodID
  SHA :: "error + string"

datatype Strategy = CattleStrategy | PinnedStrategy

text \<open>
  The controller computes with Go's \<^verbatim>\<open>int\<close>, which has 64 bits: a difference that
  leaves the range wraps around.
\<close>

definition wrapInt :: "int \<Rightarrow> int" where
  "wrapInt x = (x + 9223372036854775808) mod 18446744073709551616 - 9223372036854775808"

text \<open>
  \<^verbatim>\<open>fields.RC\<close>, the record of the replication controller. \<^verbatim>\<open>ReplicasDesired\<close> is a
  Go \<^verbatim>\<open>int\<close>, a value from \<open>- 2 ^ 63\<close> up to \<open>2 ^ 63 - 1\<close>.
\<close>

record RC =
  ID :: string
  Manifest :: Manifest
  NodeSelector :: string
  ReplicasDesired :: int
  Disabled :: bool
  PodLabels :: "string \<rightharpoonup> string"
  AllocationStrategy :: Strategy

text \<open>\<^verbatim>\<open>types.PodLocation\<close>; \<^verbatim>\<open>types.PodLocations\<close> is a slice of them.\<close>

record PodLocation =
  Node :: NodeName
  PodID :: PodID

definition Nodes :: "PodLocation list \<Rightarrow> NodeName list" where
  "Nodes l = map Node l"

datatype Tree = INTENT_TREE | REALITY_TREE

text \<open>\<^verbatim>\<open>rcstatus.Status\<close> with its optional \<^verbatim>\<open>NodeTransfer{OldNode, NewNode}\<close>.\<close>

record Status =
  NodeTransfer :: "(NodeName \<times> NodeName) option"

text \<open>
  The operations that the collaborators put into a transaction. The store, the
  labeler, the status store and the audit log store are interfaces whose
  implementations are not among the sources; following sections 4.B, 4.D and 4.E of the
  specification each of their \<^verbatim>\<open>...Txn\<close> methods appends one operation to the
  transaction of the context it is given, and fails as \<^verbatim>\<open>transaction.Add\<close> fails.
\<close>

datatype op =
    SetLabelsOp string "string \<rightharpoonup> string"
  | RemoveLabelsOp string "string set"
  | SetPodOp Tree NodeName Manifest
  | DeletePodOp Tree NodeName PodID
  | AuditLogOp string "NodeName set" "NodeName set"
  | StatusCASOp string nat Status

record AlertInfo =
  Description :: error
  IncidentKey :: string
  RCID :: string
  Hostname :: string
  PodId :: string
  AlertNodeSelector :: string

datatype logline =
    HandlingUpdate int bool
  | CurrentlyOn "PodLocation list"
  | TakingNoAction
  | NeedToSchedule int "NodeName set"
  | NeedToUnschedule int "PodLocation list"
  | UnableToSendAlert error
  | CouldNotHash NodeName error
  | FoundInconsistency NodeName string
  | SchedulingOn NodeName
  | UnschedulingFrom NodeName

datatype port_read =
    ReadMatches string
  | ReadEligible Manifest string
  | ReadPod Tree NodeName PodID
  | ReadStatus string

datatype rpc =
    Deallocate string "NodeName list"
  | Allocate Manifest string int

text \<open>
  What a pass leaves behind: the transactions submitted to the store, the alerts, the
  log lines, the reads made through the collaborators, and the calls to the
  scheduler that change allocations.
\<close>

record world =
  txn_calls :: "op list list"
  alerts :: "AlertInfo list"
  logged :: "logline list"
  reads :: "port_read list"
  rpcs :: "rpc list"

text \<open>
  The collaborators of the controller (the fields \<^verbatim>\<open>consulStore\<close>, \<^verbatim>\<open>rcStatusStore\<close>,
  \<^verbatim>\<open>txner\<close>, \<^verbatim>\<open>scheduler\<close>, \<^verbatim>\<open>podApplicator\<close>, \<^verbatim>\<open>alerter\<close> of \<^verbatim>\<open>replicationController\<close>)
  are interfaces; what they answer is a parameter, and may depend on everything that
  has happened so far. \<open>GetMatches\<close> gives, for each matching pod label, the result of
  \<^verbatim>\<open>labels.NodeAndPodIDFromPodLabel\<close>. \<open>pick\<close> is the element that \<^verbatim>\<open>NodeSet.PopAny\<close>
  takes out of a non-empty set, \<open>OsHostname\<close> what \<^verbatim>\<open>os.Hostname()\<close> returns.
\<close>

record ports =
  GetMatches :: "world \<Rightarrow> string \<Rightarrow> error + (error + NodeName \<times> PodID) list"
  EligibleNodes :: "world \<Rightarrow> Manifest \<Rightarrow> string \<Rightarrow> error + NodeName list"
  Pod :: "world \<Rightarrow> Tree \<Rightarrow> NodeName \<Rightarrow> PodID \<Rightarrow> Manifest option \<times> error option"
  Txn :: "world \<Rightarrow> op list \<Rightarrow> txn_result"
  Alert :: "world \<Rightarrow> AlertInfo \<Rightarrow> error option"
  StatusGet :: "world \<Rightarrow> string \<Rightarrow> Status \<times> error option"
  AllocateNodes :: "world \<Rightarrow> Manifest \<Rightarrow> string \<Rightarrow> int \<Rightarrow> NodeName list \<times> error option"
  DeallocateNodes :: "world \<Rightarrow> string \<Rightarrow> NodeName list \<Rightarrow> error option"
  pick :: "NodeName set \<Rightarrow> NodeName"
  OsHostname :: string

section \<open>Package rc: transactions as the controller uses them\<close>

text \<open>
  Every context of the controller is made by \<^verbatim>\<open>transaction.New(context.Background())\<close>
  and used by one function, so a context is represented by its transaction.
\<close>

definition newTx :: "op tx" where
  "newTx = \<lparr>kvOps = [], alreadyCommitted = False\<rparr>"

text \<open>
  Modelled from the spec: \<^verbatim>\<open>transaction.Commit\<close> is not among the sources. An empty
  buffer succeeds without a call to the store, any other buffer is submitted in one
  call; a transaction that was committed before is refused without a call (the test
  \<^verbatim>\<open>TesetErrAlreadyMustCommitted\<close>). The controller never uses a transaction again
  after \<^verbatim>\<open>Commit\<close>, so the committed mark is not returned.
\<close>

definition Commit :: "ports \<Rightarrow> op tx \<Rightarrow> world \<Rightarrow> txn_result \<times> world" where
  "Commit P t w =
     (if alreadyCommitted t then ((False, None, Some ErrAlreadyCommitted), w)
      else if kvOps t = [] then ((True, Some \<lparr>Errors = []\<rparr>, None), w)
      else (Txn P w (kvOps t), w\<lparr>txn_calls := txn_calls w @ [kvOps t]\<rparr>))"

text \<open>
  The \<^verbatim>\<open>switch\<close> after every commit of the controller: the transport error, or the
  rollback as a transaction violation with \<^verbatim>\<open>resp.Errors\<close>, or nothing.
\<close>

definition respErrors :: "KVTxnResponse option \<Rightarrow> string list" where
  "respErrors resp = (case resp of None \<Rightarrow> [] | Some r \<Rightarrow> Errors r)"

definition commitOutcome :: "txn_result \<Rightarrow> error option" where
  "commitOutcome r =
     (case r of
        (ok, resp, Some e) \<Rightarrow> Some e
      | (ok, resp, None) \<Rightarrow> if \<not> ok then Some (TxnViolation (respErrors resp)) else None)"

text \<open>Modelled from the spec: \<^verbatim>\<open>transaction.MustCommit\<close>, a commit whose rollback is an error.\<close>

definition MustCommit :: "ports \<Rightarrow> op tx \<Rightarrow> world \<Rightarrow> error option \<times> world" where
  "MustCommit P t w = (case Commit P t w of (r, w') \<Rightarrow> (commitOutcome r, w'))"

text \<open>
  Modelled from the spec: the auditing transaction (\<^verbatim>\<open>newAuditingTransaction\<close>,
  \<^verbatim>\<open>AddNode\<close>, \<^verbatim>\<open>RemoveNode\<close>, \<^verbatim>\<open>Nodes\<close>, \<^verbatim>\<open>Commit\<close>) is not among the sources.
  Following section 4.B it is a transaction with a node set; its commit appends one
  audit operation with the node set before and after, and delegates.
\<close>

record auditingTransaction =
  ctx :: "op tx"
  startingNodes :: "NodeName set"
  nodes :: "NodeName set"

definition newAuditingTransaction :: "NodeName set \<Rightarrow> auditingTransaction" where
  "newAuditingTransaction start = \<lparr>ctx = newTx, startingNodes = start, nodes = start\<rparr>"

definition AddNode :: "auditingTransaction \<Rightarrow> NodeName \<Rightarrow> auditingTransaction" where
  "AddNode a n = a\<lparr>nodes := insert n (nodes a)\<rparr>"

definition RemoveNode :: "auditingTransaction \<Rightarrow> NodeName \<Rightarrow> auditingTransaction" where
  "RemoveNode a n = a\<lparr>nodes := nodes a - {n}\<rparr>"

definition auditCommit :: "ports \<Rightarrow> string \<Rightarrow> auditingTransaction \<Rightarrow> world \<Rightarrow> txn_result \<times> world" where
  "auditCommit P rcid a w =
     (case addOp (ctx a) (AuditLogOp rcid (startingNodes a) (nodes a)) of
        Inl e \<Rightarrow> ((False, None, Some e), w)
      | Inr t \<Rightarrow> Commit P t w)"

text \<open>Modelled from the spec: the methods of the store and of the labeler that add to a transaction.\<close>

definition SetPodTxn :: "op tx \<Rightarrow> Tree \<Rightarrow> NodeName \<Rightarrow> Manifest \<Rightarrow> error + op tx" where
  "SetPodTxn t tree node m = addOp t (SetPodOp tree node m)"

definition DeletePodTxn :: "op tx \<Rightarrow> Tree \<Rightarrow> NodeName \<Rightarrow> PodID \<Rightarrow> error + op tx" where
  "DeletePodTxn t tree node pid = addOp t (DeletePodOp tree node pid)"

definition SetLabelsTxn :: "op tx \<Rightarrow> string \<Rightarrow> (string \<rightharpoonup> string) \<Rightarrow> error + op tx" where
  "SetLabelsTxn t key ls = addOp t (SetLabelsOp key ls)"

definition RemoveLabelsTxn :: "op tx \<Rightarrow> string \<Rightarrow> string set \<Rightarrow> error + op tx" where
  "RemoveLabelsTxn t key ks = addOp t (RemoveLabelsOp key ks)"

definition CASTxn :: "op tx \<Rightarrow> string \<Rightarrow> nat \<Rightarrow> Status \<Rightarrow> error + op tx" where
  "CASTxn t rcid version st = addOp t (StatusCASOp rcid version st)"

text \<open>Modelled from the spec: \<^verbatim>\<open>labels.MakePodLabelKey\<close>, the key \<^verbatim>\<open><node>/<pod_id>\<close>.\<close>

definition MakePodLabelKey :: "NodeName \<Rightarrow> PodID \<Rightarrow> string" where
  "MakePodLabelKey node pid = node @ ''/'' @ pid"

text \<open>
  Modelled from the spec: \<^verbatim>\<open>types.NodeSet\<close>. \<^verbatim>\<open>ListNodes\<close> lists a set in sorted
  order (the comment in \<^verbatim>\<open>addPods\<close>: nodes are moved in sorted order by hostname);
  \<^verbatim>\<open>PopAny\<close> takes some element out of a set that is not empty.
\<close>

definition ListNodes :: "NodeName set \<Rightarrow> NodeName list" where
  "ListNodes S = sorted_list_of_set S"

definition PopAny :: "ports \<Rightarrow> NodeName set \<Rightarrow> NodeName option \<times> NodeName set" where
  "PopAny P S = (if S = {} then (None, S) else (Some (pick P S), S - {pick P S}))"

section \<open>Package rc: the controller\<close>

definition RCIDLabel :: string where
  "RCIDLabel = ''replication_controller_id''"

text \<open>Modelled from the spec: the constant \<^verbatim>\<open>rcstore.PodIDLabel\<close>, the reserved label \<^verbatim>\<open>pod_id\<close>.\<close>

definition PodIDLabel :: string where
  "PodIDLabel = ''pod_id''"

definition alertInfo :: "ports \<Rightarrow> RC \<Rightarrow> error \<Rightarrow> AlertInfo" where
  "alertInfo P rc msg =
     \<lparr>Description = msg, IncidentKey = ID rc, RCID = ID rc, Hostname = OsHostname P,
      PodId = ManifestID (Manifest rc), AlertNodeSelector = NodeSelector rc\<rparr>"

text \<open>
  \<^verbatim>\<open>rc.alerter.Alert(rc.alertInfo(errMsg))\<close> followed by the log line when the alert
  could not be sent; the error of the alerter is returned for the one caller that
  uses it.
\<close>

definition sendAlert :: "ports \<Rightarrow> RC \<Rightarrow> error \<Rightarrow> world \<Rightarrow> error option \<times> world" where
  "sendAlert P rc msg w =
     (let err = Alert P w (alertInfo P rc msg);
          w1 = w\<lparr>alerts := alerts w @ [alertInfo P rc msg]\<rparr>
      in case err of
           None \<Rightarrow> (None, w1)
         | Some e \<Rightarrow> (Some e, w1\<lparr>logged := logged w1 @ [UnableToSendAlert e]\<rparr>))"

definition computePodLabels :: "RC \<Rightarrow> (string \<rightharpoonup> string)" where
  "computePodLabels rc =
     ((PodLabels rc)(PodIDLabel \<mapsto> ManifestID (Manifest rc)))(RCIDLabel \<mapsto> ID rc)"

definition scheduleNoAudit :: "RC \<Rightarrow> op tx \<Rightarrow> NodeName \<Rightarrow> world \<Rightarrow> error option \<times> op tx \<times> world" where
  "scheduleNoAudit rc t node w =
     (let w1 = w\<lparr>logged := logged w @ [SchedulingOn node]\<rparr>;
          labelKey = MakePodLabelKey node (ManifestID (Manifest rc))
      in case SetLabelsTxn t labelKey (computePodLabels rc) of
           Inl e \<Rightarrow> (Some e, t, w1)
         | Inr t1 \<Rightarrow>
             (case SetPodTxn t1 INTENT_TREE node (Manifest rc) of
                Inl e \<Rightarrow> (Some e, t1, w1)
              | Inr t2 \<Rightarrow> (None, t2, w1)))"

definition schedule :: "RC \<Rightarrow> auditingTransaction \<Rightarrow> NodeName \<Rightarrow> world \<Rightarrow> error option \<times> auditingTransaction \<times> world" where
  "schedule rc txn node w =
     (case scheduleNoAudit rc (ctx txn) node w of
        (Some e, t, w1) \<Rightarrow> (Some e, txn\<lparr>ctx := t\<rparr>, w1)
      | (None, t, w1) \<Rightarrow> (None, AddNode (txn\<lparr>ctx := t\<rparr>) node, w1))"

definition unschedule :: "RC \<Rightarrow> auditingTransaction \<Rightarrow> NodeName \<Rightarrow> world \<Rightarrow> error option \<times> auditingTransaction \<times> world" where
  "unschedule rc txn node w =
     (let w1 = w\<lparr>logged := logged w @ [UnschedulingFrom node]\<rparr>
      in case DeletePodTxn (ctx txn) INTENT_TREE node (ManifestID (Manifest rc)) of
           Inl e \<Rightarrow> (Some e, txn, w1)
         | Inr t1 \<Rightarrow>
             (let keysToRemove = dom (computePodLabels rc);
                  labelKey = MakePodLabelKey node (ManifestID (Manifest rc))
              in case RemoveLabelsTxn t1 labelKey keysToRemove of
                   Inl e \<Rightarrow> (Some e, txn\<lparr>ctx := t1\<rparr>, w1)
                 | Inr t2 \<Rightarrow> (None, RemoveNode (txn\<lparr>ctx := t2\<rparr>) node, w1)))"

text \<open>
  The head of the loops of \<^verbatim>\<open>addPods\<close> and \<^verbatim>\<open>removePods\<close>: every fifth round commits
  the running auditing transaction and opens a new one with its node set.
\<close>

definition auditBatch :: "ports \<Rightarrow> RC \<Rightarrow> nat \<Rightarrow> auditingTransaction \<Rightarrow> world \<Rightarrow> error option \<times> auditingTransaction \<times> world" where
  "auditBatch P rc i txn w =
     (if i mod 5 = 0 \<and> i > 0 then
        (case auditCommit P (ID rc) txn w of
           (r, w1) \<Rightarrow>
             (case commitOutcome r of
                Some e \<Rightarrow> (Some e, txn, w1)
              | None \<Rightarrow> (None, newAuditingTransaction (nodes txn), w1)))
      else (None, txn, w))"

text \<open>A commit of the auditing transaction that ends a function: its error, if any.\<close>

definition auditCommitErr :: "ports \<Rightarrow> RC \<Rightarrow> auditingTransaction \<Rightarrow> world \<Rightarrow> error option \<times> world" where
  "auditCommitErr P rc txn w =
     (case auditCommit P (ID rc) txn w of (r, w1) \<Rightarrow> (commitOutcome r, w1))"

function addPods_loop ::
  "ports \<Rightarrow> RC \<Rightarrow> NodeName list \<Rightarrow> NodeName list \<Rightarrow> NodeName list \<Rightarrow> int \<Rightarrow> nat
     \<Rightarrow> auditingTransaction \<Rightarrow> world \<Rightarrow> error option \<times> world"
where
  "addPods_loop P rc currentNodes eligible possibleSorted toSchedule i txn w =
     (if int i < toSchedule then
        (case auditBatch P rc i txn w of
           (Some e, txn1, w1) \<Rightarrow> (Some e, w1)
         | (None, txn1, w1) \<Rightarrow>
             if length possibleSorted < i + 1 then
               (let errMsg = NotEnoughNodes (ReplicasDesired rc) (length currentNodes)
                               (length eligible) i
                in case sendAlert P rc errMsg w1 of
                     (_, w2) \<Rightarrow>
                       (case auditCommitErr P rc txn1 w2 of
                          (Some txnErr, w3) \<Rightarrow> (Some txnErr, w3)
                        | (None, w3) \<Rightarrow> (Some errMsg, w3)))
             else
               (case schedule rc txn1 (possibleSorted ! i) w1 of
                  (Some e, txn2, w2) \<Rightarrow> (Some e, w2)
                | (None, txn2, w2) \<Rightarrow>
                    addPods_loop P rc currentNodes eligible possibleSorted toSchedule
                      (Suc i) txn2 w2))
      else auditCommitErr P rc txn w)"
  by pat_completeness auto
termination
  by (relation "measure (\<lambda>(P, rc, currentNodes, eligible, possibleSorted, toSchedule, i, txn, w).
                  nat (toSchedule - int i))") auto

declare addPods_loop.simps [simp del]

definition addPods :: "ports \<Rightarrow> RC \<Rightarrow> PodLocation list \<Rightarrow> NodeName list \<Rightarrow> world \<Rightarrow> error option \<times> world" where
  "addPods P rc current eligible w =
     (let currentNodes = Nodes current;
          possible = set eligible - set currentNodes;
          possibleSorted = ListNodes possible;
          toSchedule = wrapInt (ReplicasDesired rc - int (length currentNodes));
          w1 = w\<lparr>logged := logged w @ [NeedToSchedule toSchedule possible]\<rparr>
      in addPods_loop P rc currentNodes eligible possibleSorted toSchedule 0
           (newAuditingTransaction (set currentNodes)) w1)"

function removePods_loop ::
  "ports \<Rightarrow> RC \<Rightarrow> PodLocation list \<Rightarrow> int \<Rightarrow> nat \<Rightarrow> NodeName set \<Rightarrow> NodeName set
     \<Rightarrow> auditingTransaction \<Rightarrow> world \<Rightarrow> error option \<times> world"
where
  "removePods_loop P rc current toUnschedule i preferred rest txn w =
     (if int i < toUnschedule then
        (case auditBatch P rc i txn w of
           (Some e, txn1, w1) \<Rightarrow> (Some e, w1)
         | (None, txn1, w1) \<Rightarrow>
             (case PopAny P preferred of
                (Some unscheduleFrom, preferred1) \<Rightarrow>
                  (case unschedule rc txn1 unscheduleFrom w1 of
                     (Some e, txn2, w2) \<Rightarrow> (Some e, w2)
                   | (None, txn2, w2) \<Rightarrow>
                       removePods_loop P rc current toUnschedule (Suc i) preferred1 rest txn2 w2)
              | (None, preferred1) \<Rightarrow>
                  (case PopAny P rest of
                     (Some unscheduleFrom, rest1) \<Rightarrow>
                       (case unschedule rc txn1 unscheduleFrom w1 of
                          (Some e, txn2, w2) \<Rightarrow> (Some e, w2)
                        | (None, txn2, w2) \<Rightarrow>
                            removePods_loop P rc current toUnschedule (Suc i) preferred1 rest1
                              txn2 w2)
                   | (None, rest1) \<Rightarrow>
                       (case auditCommitErr P rc txn1 w1 of
                          (Some txnErr, w2) \<Rightarrow> (Some txnErr, w2)
                        | (None, w2) \<Rightarrow>
                            (Some (UnableToUnschedule (ReplicasDesired rc) (length current)),
                             w2)))))
      else auditCommitErr P rc txn w)"
  by pat_completeness auto
termination
  by (relation "measure (\<lambda>(P, rc, current, toUnschedule, i, preferred, rest, txn, w).
                  nat (toUnschedule - int i))") auto

declare removePods_loop.simps [simp del]

definition removePods :: "ports \<Rightarrow> RC \<Rightarrow> PodLocation list \<Rightarrow> NodeName list \<Rightarrow> world \<Rightarrow> error option \<times> world" where
  "removePods P rc current eligible w =
     (let currentNodes = Nodes current;
          preferred = set currentNodes - set eligible;
          rest = set currentNodes - preferred;
          toUnschedule = wrapInt (int (length current) - ReplicasDesired rc);
          w1 = w\<lparr>logged := logged w @ [NeedToUnschedule toUnschedule current]\<rparr>
      in removePods_loop P rc current toUnschedule 0 preferred rest
           (newAuditingTransaction (set currentNodes)) w1)"

text \<open>
  The loop of \<^verbatim>\<open>ensureConsistency\<close> over \<^verbatim>\<open>current\<close> with its index. A pod whose intent
  has the SHA of the controller's manifest is skipped (\<^verbatim>\<open>continue\<close>); for every other
  pod \<^verbatim>\<open>scheduleNoAudit\<close> is called, which writes the labels and the intent.
\<close>

definition txBatch :: "ports \<Rightarrow> nat \<Rightarrow> op tx \<Rightarrow> world \<Rightarrow> error option \<times> op tx \<times> world" where
  "txBatch P i t w =
     (if i mod 5 = 0 \<and> i > 0 then
        (case Commit P t w of
           (r, w1) \<Rightarrow>
             (case commitOutcome r of
                Some e \<Rightarrow> (Some e, t, w1)
              | None \<Rightarrow> (None, newTx, w1)))
      else (None, t, w))"

fun ensureConsistency_loop ::
  "ports \<Rightarrow> RC \<Rightarrow> string \<Rightarrow> nat \<Rightarrow> PodLocation list \<Rightarrow> op tx \<Rightarrow> world \<Rightarrow> error option \<times> world"
where
  "ensureConsistency_loop P rc manifestSHA i [] t w =
     (case Commit P t w of (r, w1) \<Rightarrow> (commitOutcome r, w1))"
| "ensureConsistency_loop P rc manifestSHA i (pod # pods) t w =
     (case txBatch P i t w of
        (Some e, t1, w1) \<Rightarrow> (Some e, w1)
      | (None, t1, w1) \<Rightarrow>
          (case Pod P w1 INTENT_TREE (Node pod) (PodID pod) of
             (intent, err) \<Rightarrow>
               (let w2 = w1\<lparr>reads := reads w1 @ [ReadPod INTENT_TREE (Node pod) (PodID pod)]\<rparr>
                in if err \<noteq> None \<and> err \<noteq> Some NoCurrentManifest then (err, w2)
                   else
                     (let (intentSHA, w3) =
                            (case intent of
                               None \<Rightarrow> ([], w2)
                             | Some m \<Rightarrow>
                                 (case SHA m of
                                    Inl e \<Rightarrow>
                                      ([], w2\<lparr>logged := logged w2 @ [CouldNotHash (Node pod) e]\<rparr>)
                                  | Inr s \<Rightarrow> (s, w2)))
                      in if intent \<noteq> None \<and> intentSHA = manifestSHA then
                           ensureConsistency_loop P rc manifestSHA (Suc i) pods t1 w3
                         else
                           (case scheduleNoAudit rc t1 (Node pod)
                                   (w3\<lparr>logged := logged w3 @
                                          [FoundInconsistency (Node pod) intentSHA]\<rparr>) of
                              (Some e, t2, w4) \<Rightarrow> (Some e, w4)
                            | (None, t2, w4) \<Rightarrow>
                                ensureConsistency_loop P rc manifestSHA (Suc i) pods t2 w4)))))"

definition ensureConsistency :: "ports \<Rightarrow> RC \<Rightarrow> PodLocation list \<Rightarrow> world \<Rightarrow> error option \<times> world" where
  "ensureConsistency P rc current w =
     (case SHA (Manifest rc) of
        Inl e \<Rightarrow> (Some e, w)
      | Inr manifestSHA \<Rightarrow> ensureConsistency_loop P rc manifestSHA 0 current newTx w)"

definition checkForIneligible :: "PodLocation list \<Rightarrow> NodeName list \<Rightarrow> NodeName list" where
  "checkForIneligible current eligible =
     map Node (filter (\<lambda>currentPod. Node currentPod \<notin> set eligible) current)"

definition eligibleNodes :: "ports \<Rightarrow> RC \<Rightarrow> world \<Rightarrow> (error + NodeName list) \<times> world" where
  "eligibleNodes P rc w =
     (EligibleNodes P w (Manifest rc) (NodeSelector rc),
      w\<lparr>reads := reads w @ [ReadEligible (Manifest rc) (NodeSelector rc)]\<rparr>)"

text \<open>The loop of \<^verbatim>\<open>CurrentPods\<close> over the matches: the first label that does not parse is the error.\<close>

fun podLocations :: "(error + NodeName \<times> PodID) list \<Rightarrow> error + PodLocation list" where
  "podLocations [] = Inr []"
| "podLocations (Inl e # ms) = Inl e"
| "podLocations (Inr (node, podID) # ms) =
     (case podLocations ms of
        Inl e \<Rightarrow> Inl e
      | Inr l \<Rightarrow> Inr (\<lparr>Node = node, PodID = podID\<rparr> # l))"

definition CurrentPods :: "ports \<Rightarrow> RC \<Rightarrow> world \<Rightarrow> (error + PodLocation list) \<times> world" where
  "CurrentPods P rc w =
     (case GetMatches P w (ID rc) of
        Inl e \<Rightarrow> (Inl e, w\<lparr>reads := reads w @ [ReadMatches (ID rc)]\<rparr>)
      | Inr podMatches \<Rightarrow>
          (podLocations podMatches, w\<lparr>reads := reads w @ [ReadMatches (ID rc)]\<rparr>))"

definition isNodeTransferInProgress :: "ports \<Rightarrow> RC \<Rightarrow> world \<Rightarrow> (bool \<times> error option) \<times> world" where
  "isNodeTransferInProgress P rc w =
     (case StatusGet P w (ID rc) of
        (status, err) \<Rightarrow>
          (if err \<noteq> None \<and> err \<noteq> Some NoStatus then (False, err)
           else (NodeTransfer status \<noteq> None, None),
           w\<lparr>reads := reads w @ [ReadStatus (ID rc)]\<rparr>))"

text \<open>
  \<^verbatim>\<open>updateAllocations\<close>. The source writes \<^verbatim>\<open>status.NodeTransfer\<close> of a variable
  \<^verbatim>\<open>status\<close> that it does not declare; it is taken to be an empty status.
\<close>

definition updateAllocations :: "ports \<Rightarrow> RC \<Rightarrow> NodeName list \<Rightarrow> world \<Rightarrow> (error + NodeName) \<times> world" where
  "updateAllocations P rc ineligible w =
     (case ineligible of
        [] \<Rightarrow> (Inl NeedIneligible, w)
      | oldNode # _ \<Rightarrow>
          (let w1 = w\<lparr>rpcs := rpcs w @ [Deallocate (NodeSelector rc) [oldNode]]\<rparr>
           in case DeallocateNodes P w (NodeSelector rc) [oldNode] of
                Some e \<Rightarrow> (Inl (CouldNotDeallocate oldNode e), w1)
              | None \<Rightarrow>
                  (let w2 = w1\<lparr>rpcs := rpcs w1 @ [Allocate (Manifest rc) (NodeSelector rc) 1]\<rparr>
                   in case AllocateNodes P w1 (Manifest rc) (NodeSelector rc) 1 of
                        (newNodes, err) \<Rightarrow>
                          if err \<noteq> None \<or> length newNodes < 1 then
                            (case sendAlert P rc (UnableToAllocate err) w2 of
                               (_, w3) \<Rightarrow> (Inl (UnableToAllocate err), w3))
                          else
                            (let newNode = hd newNodes;
                                 status = \<lparr>NodeTransfer = Some (oldNode, newNode)\<rparr>
                             in case CASTxn newTx (ID rc) 0 status of
                                  Inl e \<Rightarrow> (Inl (CouldNotWriteStatus e), w2)
                                | Inr writeCtx \<Rightarrow>
                                    (case MustCommit P writeCtx w2 of
                                       (Some e, w3) \<Rightarrow> (Inl (CouldNotCommitCAS e), w3)
                                     | (None, w3) \<Rightarrow> (Inr newNode, w3))))))"

text \<open>
  \<^verbatim>\<open>scheduleWithoutLabel\<close>. The source names \<^verbatim>\<open>txn.Context()\<close>, \<^verbatim>\<open>scheduleOn\<close> and
  \<^verbatim>\<open>ctx\<close>, none of which it declares; they are read as \<^verbatim>\<open>writeCtx\<close>, \<^verbatim>\<open>newNode\<close> and
  \<^verbatim>\<open>writeCtx\<close>.
\<close>

definition scheduleWithoutLabel :: "ports \<Rightarrow> RC \<Rightarrow> NodeName \<Rightarrow> world \<Rightarrow> error option \<times> world" where
  "scheduleWithoutLabel P rc newNode w =
     (let w1 = w\<lparr>logged := logged w @ [SchedulingOn newNode]\<rparr>
      in case SetPodTxn newTx INTENT_TREE newNode (Manifest rc) of
           Inl e \<Rightarrow> (Some e, w1)
         | Inr writeCtx \<Rightarrow>
             (case Commit P writeCtx w1 of
                (r, w2) \<Rightarrow>
                  (case r of
                     (ok, resp, Some e) \<Rightarrow> (Some e, w2)
                   | (ok, resp, None) \<Rightarrow>
                       if \<not> ok then (Some (CouldNotScheduleNode newNode (respErrors resp)), w2)
                       else (None, w2))))"

text \<open>
  \<^verbatim>\<open>updateAllocationsAndReschedule\<close>. In the branch of a strategy other than cattle
  the source names \<^verbatim>\<open>ineligibleCurrent\<close>, which it does not declare; it is read as the
  parameter \<^verbatim>\<open>ineligible\<close>. That branch returns \<^verbatim>\<open>err\<close>, the error of the alerter.
\<close>

definition updateAllocationsAndReschedule ::
  "ports \<Rightarrow> RC \<Rightarrow> NodeName list \<Rightarrow> world \<Rightarrow> (NodeName option \<times> error option) \<times> world" where
  "updateAllocationsAndReschedule P rc ineligible w =
     (if AllocationStrategy rc \<noteq> CattleStrategy then
        (case sendAlert P rc (NonCattleIneligible (length ineligible) ineligible) w of
           (err, w1) \<Rightarrow> ((None, err), w1))
      else
        (case updateAllocations P rc ineligible w of
           (Inl e, w1) \<Rightarrow> ((None, Some e), w1)
         | (Inr newNode, w1) \<Rightarrow>
             (case scheduleWithoutLabel P rc newNode w1 of
                (Some e, w2) \<Rightarrow> ((None, Some e), w2)
              | (None, w2) \<Rightarrow> ((Some newNode, None), w2))))"

text \<open>
  \<^verbatim>\<open>transferNodes\<close>. The source calls \<^verbatim>\<open>updateAllocationsAndReschedule(ineligibleNodes)\<close>
  with a name it does not declare (read as \<^verbatim>\<open>ineligible\<close>) and ends without a
  \<^verbatim>\<open>return\<close> after the error check; the end of the function is read as \<^verbatim>\<open>return nil\<close>.
\<close>

definition transferNodes :: "ports \<Rightarrow> RC \<Rightarrow> NodeName list \<Rightarrow> world \<Rightarrow> error option \<times> world" where
  "transferNodes P rc ineligible w =
     (case isNodeTransferInProgress P rc w of
        ((inProg, Some e), w1) \<Rightarrow> (Some e, w1)
      | ((inProg, None), w1) \<Rightarrow>
          if inProg then (None, w1)
          else
            (case updateAllocationsAndReschedule P rc ineligible w1 of
               ((newNode, Some e), w2) \<Rightarrow> (Some e, w2)
             | ((newNode, None), w2) \<Rightarrow> (None, w2)))"

definition meetDesires :: "ports \<Rightarrow> RC \<Rightarrow> world \<Rightarrow> error option \<times> world" where
  "meetDesires P rc w0 =
     (let w = w0\<lparr>logged := logged w0 @ [HandlingUpdate (ReplicasDesired rc) (Disabled rc)]\<rparr>
      in if Disabled rc then (None, w)
         else
           (case CurrentPods P rc w of
              (Inl e, w1) \<Rightarrow> (Some e, w1)
            | (Inr current, w1) \<Rightarrow>
                (case eligibleNodes P rc w1 of
                   (Inl e, w2) \<Rightarrow> (Some e, w2)
                 | (Inr eligible, w2) \<Rightarrow>
                     (let w3 = w2\<lparr>logged := logged w2 @ [CurrentlyOn current]\<rparr>;
                          (err, nodesChanged, w4) =
                            (if ReplicasDesired rc > int (length current) then
                               (case addPods P rc current eligible w3 of
                                  (e, w') \<Rightarrow> (e, True, w'))
                             else if int (length current) > ReplicasDesired rc then
                               (case removePods P rc current eligible w3 of
                                  (e, w') \<Rightarrow> (e, True, w'))
                             else (None, False, w3\<lparr>logged := logged w3 @ [TakingNoAction]\<rparr>))
                      in case err of
                           Some e \<Rightarrow> (Some e, w4)
                         | None \<Rightarrow>
                             (case (if nodesChanged then CurrentPods P rc w4
                                    else (Inr current, w4)) of
                                (Inl e, w5) \<Rightarrow> (Some e, w5)
                              | (Inr current', w5) \<Rightarrow>
                                  (let ineligible = checkForIneligible current' eligible
                                   in if length ineligible > 0 then
                                        (case transferNodes P rc ineligible w5 of
                                           (Some e, w6) \<Rightarrow> (Some e, w6)
                                         | (None, w6) \<Rightarrow> ensureConsistency P rc current' w6)
                                      else ensureConsistency P rc current' w5))))))"

text \<open>
  \<^verbatim>\<open>finalizeCompleteTransfer\<close>. The source names \<^verbatim>\<open>node\<close>, \<^verbatim>\<open>manifest\<close>, \<^verbatim>\<open>ctx\<close> and
  \<^verbatim>\<open>oldNode\<close> without declaring them; they are read as \<^verbatim>\<open>newNode\<close>, the manifest of
  the controller, the context of the auditing transaction, and a further
  parameter.
\<close>

definition finalizeCompleteTransfer ::
  "ports \<Rightarrow> RC \<Rightarrow> NodeName \<Rightarrow> NodeName \<Rightarrow> world \<Rightarrow> error option \<times> world" where
  "finalizeCompleteTransfer P rc newNode oldNode w =
     (case CurrentPods P rc w of
        (Inl e, w1) \<Rightarrow> (Some e, w1)
      | (Inr current, w1) \<Rightarrow>
          (let txn = AddNode (newAuditingTransaction (set (Nodes current))) newNode;
               labelKey = MakePodLabelKey newNode (ManifestID (Manifest rc))
           in case SetLabelsTxn (ctx txn) labelKey (computePodLabels rc) of
                Inl e \<Rightarrow> (Some e, w1)
              | Inr t1 \<Rightarrow>
                  (case unschedule rc (txn\<lparr>ctx := t1\<rparr>) oldNode w1 of
                     (Some e, txn2, w2) \<Rightarrow> (Some e, w2)
                   | (None, txn2, w2) \<Rightarrow>
                       (case auditCommit P (ID rc) txn2 w2 of
                          (r, w3) \<Rightarrow>
                            (case r of
                               (ok, resp, Some e) \<Rightarrow> (Some e, w3)
                             | (ok, resp, None) \<Rightarrow>
                                 if \<not> ok then (Some (TxnViolation (respErrors resp)), w3)
                                 else (None, w3))))))"

section \<open>Observations on a pass\<close>

text \<open>The nodes of the log lines \<^verbatim>\<open>Scheduling on\<close> and \<^verbatim>\<open>Unscheduling from\<close>, in order.\<close>

fun scheduledNodes :: "logline list \<Rightarrow> NodeName list" where
  "scheduledNodes [] = []"
| "scheduledNodes (SchedulingOn n # ls) = n # scheduledNodes ls"
| "scheduledNodes (_ # ls) = scheduledNodes ls"

fun unscheduledNodes :: "logline list \<Rightarrow> NodeName list" where
  "unscheduledNodes [] = []"
| "unscheduledNodes (UnschedulingFrom n # ls) = n # unscheduledNodes ls"
| "unscheduledNodes (_ # ls) = unscheduledNodes ls"

text \<open>The label maps of the label writes among some operations.\<close>

fun labelWrites :: "op list \<Rightarrow> (string \<rightharpoonup> string) list" where
  "labelWrites [] = []"
| "labelWrites (SetLabelsOp key ls # ops) = ls # labelWrites ops"
| "labelWrites (_ # ops) = labelWrites ops"

text \<open>The operations other than the audit log entries.\<close>

fun isAudit :: "op \<Rightarrow> bool" where
  "isAudit (AuditLogOp rcid before after) = True"
| "isAudit _ = False"

definition withoutAudit :: "op list \<Rightarrow> op list" where
  "withoutAudit ops = filter (\<lambda>op. \<not> isAudit op) ops"

text \<open>The two operations that \<^verbatim>\<open>scheduleNoAudit\<close> appends for a node.\<close>

definition scheduleOps :: "RC \<Rightarrow> NodeName \<Rightarrow> op list" where
  "scheduleOps rc node =
     [SetLabelsOp (MakePodLabelKey node (ManifestID (Manifest rc))) (computePodLabels rc),
      SetPodOp INTENT_TREE node (Manifest rc)]"

text \<open>The two operations that \<^verbatim>\<open>unschedule\<close> appends for a node.\<close>

definition unscheduleOps :: "RC \<Rightarrow> NodeName \<Rightarrow> op list" where
  "unscheduleOps rc node =
     [DeletePodOp INTENT_TREE node (ManifestID (Manifest rc)),
      RemoveLabelsOp (MakePodLabelKey node (ManifestID (Manifest rc)))
        (dom (computePodLabels rc))]"

text \<open>
  The SHA that \<^verbatim>\<open>ensureConsistency\<close> compares for a stored intent: the empty string
  when \<^verbatim>\<open>SHA()\<close> fails. A placement is repaired when there is no intent or this SHA
  is not the one of the controller's manifest.
\<close>

definition intentSHA :: "Manifest \<Rightarrow> string" where
  "intentSHA m = (case SHA m of Inl e \<Rightarrow> [] | Inr s \<Rightarrow> s)"

definition inconsistent :: "Manifest option \<Rightarrow> string \<Rightarrow> bool" where
  "inconsistent intent manifestSHA =
     (case intent of None \<Rightarrow> True | Some m \<Rightarrow> intentSHA m \<noteq> manifestSHA)"

section \<open>Scenarios\<close>

definition man0 :: Manifest where
  "man0 = \<lparr>ManifestID = ''thepod'', SHA = Inr ''new''\<rparr>"

definition manOld :: Manifest where
  "manOld = \<lparr>ManifestID = ''thepod'', SHA = Inr ''old''\<rparr>"

text \<open>A controller whose user labels try to set a reserved label.\<close>

definition rc0 :: RC where
  "rc0 = \<lparr>ID = ''rc1'', Manifest = man0, NodeSelector = ''sel'', ReplicasDesired = 1,
          Disabled = False, PodLabels = [''pod_id'' \<mapsto> ''mine'', ''app'' \<mapsto> ''web''],
          AllocationStrategy = CattleStrategy\<rparr>"

definition w0 :: world where
  "w0 = \<lparr>txn_calls = [], alerts = [], logged = [], reads = [], rpcs = []\<rparr>"

text \<open>
  Collaborators that accept everything: the store commits, the alerter sends, there
  is no status. The current pods, the eligible nodes and the stored intent are
  given.
\<close>

definition quiet :: "(NodeName \<times> PodID) list \<Rightarrow> NodeName list \<Rightarrow> (NodeName \<Rightarrow> Manifest option) \<Rightarrow> ports" where
  "quiet cur elig intent =
     \<lparr>GetMatches = (\<lambda>w rcid. Inr (map Inr cur)),
      EligibleNodes = (\<lambda>w m sel. Inr elig),
      Pod = (\<lambda>w tree node pid.
               (intent node, if intent node = None then Some NoCurrentManifest else None)),
      Txn = (\<lambda>w ops. (True, Some \<lparr>Errors = []\<rparr>, None)),
      Alert = (\<lambda>w info. None),
      StatusGet = (\<lambda>w rcid. (\<lparr>NodeTransfer = None\<rparr>, Some NoStatus)),
      AllocateNodes = (\<lambda>w m sel n. ([], None)),
      DeallocateNodes = (\<lambda>w sel ns. None),
      pick = Min,
      OsHostname = ''host''\<rparr>"

text \<open>The same with a node transfer from \<open>n1\<close> to \<open>n2\<close> recorded in the status.\<close>

definition transferring :: ports where
  "transferring =
     (quiet [(''n1'', ''thepod'')] [''n2''] (\<lambda>n. Some man0))
       \<lparr>StatusGet := (\<lambda>w rcid. (\<lparr>NodeTransfer = Some (''n1'', ''n2'')\<rparr>, None))\<rparr>"

text \<open>
  The number of operations that the running transaction of \<^verbatim>\<open>ensureConsistency\<close> or
  \<^verbatim>\<open>addPods\<close> can hold when round \<open>i\<close> of the loop begins: two for each round since
  the last commit.
\<close>

definition batchBound :: "nat \<Rightarrow> nat" where
  "batchBound i = (if i mod 5 = 0 then (if i = 0 then 0 else 10) else 2 * (i mod 5))"

section \<open>Properties of the transaction buffer\<close>

lemma getTxn_New_self:
  "getTxnFromContext (fst (New parent h)) (snd (New parent h)) =
     Inr \<lparr>kvOps = (case getTxnFromContext parent h of Inl _ \<Rightarrow> [] | Inr t \<Rightarrow> kvOps t),
          alreadyCommitted = False\<rparr>"
  by (simp add: New_def getTxnFromContext_def Let_def)

lemma AddAll_fits:
  assumes "txref cx = Some a" and "a < length h"
    and "\<not> alreadyCommitted (h ! a)"
    and "length (kvOps (h ! a)) + length ops \<le> 64"
  shows "AddAll cx ops h =
           (replicate (length ops) None, h[a := (h ! a)\<lparr>kvOps := kvOps (h ! a) @ ops\<rparr>])"
  using assms
proof (induction ops arbitrary: h)
  case Nil
  then show ?case by simp
next
  case (Cons op ops)
  let ?t = "(h ! a)\<lparr>kvOps := kvOps (h ! a) @ [op]\<rparr>"
  have step: "Add cx op h = (None, h[a := ?t])"
    using Cons.prems by (simp add: Add_def getTxnFromContext_def addOp_def)
  have "AddAll cx ops (h[a := ?t]) =
          (replicate (length ops) None,
           (h[a := ?t])[a := ((h[a := ?t]) ! a)\<lparr>kvOps := kvOps ((h[a := ?t]) ! a) @ ops\<rparr>])"
    using Cons.prems by (intro Cons.IH) simp_all
  then show ?case
    using step Cons.prems by simp
qed

text \<open>
  C6. Starting from a freshly created empty transaction (a context made by
  \<^verbatim>\<open>New\<close> whose buffer is empty: the parent carries no transaction, or an empty
  one), the first 64 calls to \<^verbatim>\<open>Add\<close> each succeed, whatever the operations, and the
  next call fails with \<^verbatim>\<open>ErrTooManyOperations\<close>.
\<close>

theorem Add_limit_64:
  assumes "opCount (fst (New parent h)) (snd (New parent h)) = Inr 0"
    and "length ops = 64"
  shows "fst (AddAll (fst (New parent h)) ops (snd (New parent h))) = replicate 64 None
       \<and> fst (Add (fst (New parent h)) op
                (snd (AddAll (fst (New parent h)) ops (snd (New parent h)))))
           = Some ErrTooManyOperations"
proof -
  let ?cx = "fst (New parent h)" and ?h = "snd (New parent h)"
  have r: "txref ?cx = Some (length h)" "length h < length ?h"
    by (simp_all add: New_def Let_def)
  have "getTxnFromContext ?cx ?h = Inr (?h ! length h)"
    using r by (simp add: getTxnFromContext_def)
  then have "kvOps (?h ! length h) = []"
    using assms(1) by (simp add: opCount_def)
  moreover have "\<not> alreadyCommitted (?h ! length h)"
    by (simp add: New_def Let_def)
  ultimately have t: "?h ! length h = \<lparr>kvOps = [], alreadyCommitted = False\<rparr>"
    by (cases "?h ! length h") simp
  have "AddAll ?cx ops ?h =
          (replicate (length ops) None,
           ?h[length h := (?h ! length h)\<lparr>kvOps := kvOps (?h ! length h) @ ops\<rparr>])"
    using r t assms(2) by (intro AddAll_fits) simp_all
  then show ?thesis
    using r t assms(2) by (simp add: Add_def getTxnFromContext_def addOp_def)
qed

theorem Add_limit_64_witness:
  "opCount (fst (New Background ([] :: KVTxnOp txstore))) (snd (New Background [])) = Inr 0
   \<and> length (replicate 64 emptyOp) = 64
   \<and> fst (AddAll (fst (New Background ([] :: KVTxnOp txstore))) (replicate 64 emptyOp)
           (snd (New Background [])))
     = replicate 64 None
   \<and> fst (Add (fst (New Background ([] :: KVTxnOp txstore))) emptyOp
            (snd (AddAll (fst (New Background ([] :: KVTxnOp txstore))) (replicate 64 emptyOp)
                    (snd (New Background [])))))
       = Some ErrTooManyOperations"
proof -
  have h1: "opCount (fst (New Background ([] :: KVTxnOp txstore))) (snd (New Background []))
              = Inr 0"
    by (simp add: opCount_def getTxnFromContext_def New_def Let_def Background_def)
  have h2: "length (replicate 64 emptyOp) = 64"
    by simp
  show ?thesis
    using h1 h2 Add_limit_64 [OF h1 h2, of emptyOp] by simp
qed

lemma inherit_simps:
  "inherit_ctx = \<lparr>txref = Some 0\<rparr>"
  "inherit_h1 = [\<lparr>kvOps = [emptyOp], alreadyCommitted = False\<rparr>]"
  "inherit_ctx2 = \<lparr>txref = Some 1\<rparr>"
  "inherit_h2 = [\<lparr>kvOps = [emptyOp], alreadyCommitted = False\<rparr>,
                 \<lparr>kvOps = [emptyOp], alreadyCommitted = False\<rparr>]"
  "inherit_h3 = [\<lparr>kvOps = [emptyOp], alreadyCommitted = False\<rparr>,
                 \<lparr>kvOps = [emptyOp, emptyOp], alreadyCommitted = False\<rparr>]"
  "inherit_h4 = [\<lparr>kvOps = [emptyOp, emptyOp, emptyOp], alreadyCommitted = False\<rparr>,
                 \<lparr>kvOps = [emptyOp, emptyOp], alreadyCommitted = False\<rparr>]"
  by (simp_all add: inherit_ctx_def inherit_h1_def inherit_ctx2_def inherit_h2_def
      inherit_h3_def inherit_h4_def New_def Add_def addOp_def getTxnFromContext_def
      Background_def Let_def)

lemma TestAdd_passes: "TestAdd"
proof -
  have h1: "txref Background = None"
    by (simp add: Background_def)
  have h2: "length (replicate 64 emptyOp) = 64"
    by simp
  have "fst (AddAll (fst (New Background ([] :: KVTxnOp txstore))) (replicate 64 emptyOp)
           (snd (New Background []))) = replicate 64 None
   \<and> fst (Add (fst (New Background ([] :: KVTxnOp txstore))) emptyOp
            (snd (AddAll (fst (New Background ([] :: KVTxnOp txstore))) (replicate 64 emptyOp)
                    (snd (New Background []))))) = Some ErrTooManyOperations"
    using AddAll_fits [of "fst (New Background ([] :: KVTxnOp txstore))" 0
        "snd (New Background [])" "replicate 64 emptyOp"]
    by (simp add: New_def Let_def Background_def getTxnFromContext_def Add_def addOp_def)
  then show ?thesis
    unfolding TestAdd_def
    by (simp add: split_def list_all_iff)
qed

lemma TestContextInheritsOperations_passes: "TestContextInheritsOperations"
  unfolding TestContextInheritsOperations_def inherit_simps
  by (simp add: opCount_def Add_def addOp_def getTxnFromContext_def)

text \<open>
  C1 (as stated). The claim says that a context derived from a parent with a
  transaction shares the parent's buffer, so that the two observed operation counts
  are always equal. After the steps of \<^verbatim>\<open>TestContextInheritsOperations\<close> (one
  operation added through the parent, the context derived, one operation added
  through the derived context) the parent shows one operation and the derived
  context two.
\<close>

theorem shared_buffer_counterexample:
  "opCount inherit_ctx inherit_h3 = Inr 1 \<and> opCount inherit_ctx2 inherit_h3 = Inr 2
   \<and> opCount inherit_ctx inherit_h3 \<noteq> opCount inherit_ctx2 inherit_h3"
  unfolding inherit_simps
  by (simp add: opCount_def getTxnFromContext_def)

text \<open>
  C1 (amended). If a transaction context is derived from a parent context that
  carries a transaction with \<open>k\<close> operations, the derived context starts with a copy
  of these \<open>k\<close> operations: right after the derivation both contexts show \<open>k\<close>
  operations, and in every later state \<open>g\<close> an \<^verbatim>\<open>Add\<close> through one of the two
  contexts leaves the count observed through the other unchanged and, when it
  succeeds, raises its own count by one.
\<close>

theorem derived_context_has_own_copy:
  assumes "getTxnFromContext parent h = Inr t"
    and "length h < length g"
    and "opCount (fst (New parent h)) g = Inr m"
    and "opCount parent g = Inr n"
  shows "opCount (fst (New parent h)) (snd (New parent h)) = Inr (length (kvOps t))
       \<and> opCount parent (snd (New parent h)) = Inr (length (kvOps t))
       \<and> opCount parent (snd (Add (fst (New parent h)) op g)) = Inr n
       \<and> opCount (fst (New parent h)) (snd (Add parent op g)) = Inr m
       \<and> (fst (Add (fst (New parent h)) op g) = None \<longrightarrow>
            opCount (fst (New parent h)) (snd (Add (fst (New parent h)) op g)) = Inr (Suc m))
       \<and> (fst (Add parent op g) = None \<longrightarrow>
            opCount parent (snd (Add parent op g)) = Inr (Suc n))"
proof -
  obtain a where a: "txref parent = Some a" "a < length h" "t = h ! a"
    using assms(1)
    by (auto simp: getTxnFromContext_def split: option.splits if_splits)
  have c: "txref (fst (New parent h)) = Some (length h)"
    by (simp add: New_def Let_def)
  have ne: "a \<noteq> length h" "a < length g"
    using a(2) assms(2) by simp_all
  have p1: "opCount (fst (New parent h)) (snd (New parent h)) = Inr (length (kvOps t))"
    using assms(1) by (simp add: opCount_def getTxn_New_self)
  have p2: "opCount parent (snd (New parent h)) = Inr (length (kvOps t))"
    using a by (simp add: opCount_def getTxnFromContext_def New_def Let_def nth_append)
  have p3: "opCount parent (snd (Add (fst (New parent h)) op g)) = Inr n"
    using assms(4) a c ne assms(2)
    by (auto simp: opCount_def getTxnFromContext_def Add_def split: sum.splits)
  have p4: "opCount (fst (New parent h)) (snd (Add parent op g)) = Inr m"
    using assms(3) a c ne assms(2)
    by (auto simp: opCount_def getTxnFromContext_def Add_def split: sum.splits)
  have p5: "fst (Add (fst (New parent h)) op g) = None \<longrightarrow>
            opCount (fst (New parent h)) (snd (Add (fst (New parent h)) op g)) = Inr (Suc m)"
    using assms(3) c assms(2)
    by (auto simp: opCount_def getTxnFromContext_def Add_def addOp_def
        split: sum.splits if_splits)
  have p6: "fst (Add parent op g) = None \<longrightarrow>
            opCount parent (snd (Add parent op g)) = Inr (Suc n)"
    using assms(4) a ne
    by (auto simp: opCount_def getTxnFromContext_def Add_def addOp_def
        split: sum.splits if_splits)
  show ?thesis
    using p1 p2 p3 p4 p5 p6 by blast
qed

theorem derived_context_has_own_copy_witness:
  "getTxnFromContext inherit_ctx inherit_h1 = Inr \<lparr>kvOps = [emptyOp], alreadyCommitted = False\<rparr>
   \<and> length inherit_h1 < length inherit_h3
   \<and> opCount (fst (New inherit_ctx inherit_h1)) inherit_h3 = Inr 2
   \<and> opCount inherit_ctx inherit_h3 = Inr 1
   \<and> opCount (fst (New inherit_ctx inherit_h1)) (snd (New inherit_ctx inherit_h1)) = Inr 1
   \<and> opCount inherit_ctx (snd (New inherit_ctx inherit_h1)) = Inr 1
   \<and> opCount inherit_ctx (snd (Add (fst (New inherit_ctx inherit_h1)) emptyOp inherit_h3)) = Inr 1
   \<and> opCount (fst (New inherit_ctx inherit_h1)) (snd (Add inherit_ctx emptyOp inherit_h3)) = Inr 2
   \<and> opCount (fst (New inherit_ctx inherit_h1))
        (snd (Add (fst (New inherit_ctx inherit_h1)) emptyOp inherit_h3)) = Inr 3
   \<and> opCount inherit_ctx (snd (Add inherit_ctx emptyOp inherit_h3)) = Inr 2"
proof -
  have h1: "getTxnFromContext inherit_ctx inherit_h1
              = Inr \<lparr>kvOps = [emptyOp], alreadyCommitted = False\<rparr>"
    unfolding inherit_simps by (simp add: getTxnFromContext_def)
  have h2: "length inherit_h1 < length inherit_h3"
    unfolding inherit_simps by simp
  have h3: "opCount (fst (New inherit_ctx inherit_h1)) inherit_h3 = Inr 2"
    unfolding inherit_simps by (simp add: opCount_def getTxnFromContext_def New_def Let_def)
  have h4: "opCount inherit_ctx inherit_h3 = Inr 1"
    unfolding inherit_simps by (simp add: opCount_def getTxnFromContext_def)
  have a1: "fst (Add (fst (New inherit_ctx inherit_h1)) emptyOp inherit_h3) = None"
    unfolding inherit_simps
    by (simp add: Add_def addOp_def getTxnFromContext_def New_def Let_def)
  have a2: "fst (Add inherit_ctx emptyOp inherit_h3) = None"
    unfolding inherit_simps
    by (simp add: Add_def addOp_def getTxnFromContext_def)
  show ?thesis
    using derived_context_has_own_copy [OF h1 h2 h3 h4, of emptyOp] h1 h2 h3 h4 a1 a2
    by simp
qed

lemma CommitWithRetries_loop_exit:
  assumes "\<not> transport_error (txner n ops) \<or> cancelled n"
  shows "CommitWithRetries_loop txner cancelled ops n =
           Some (if transport_error (txner n ops)
                 then (False, None, snd (snd (txner n ops))) else txner n ops, Suc n)"
proof -
  obtain ok resp err where r: "txner n ops = (ok, resp, err)"
    by (cases "txner n ops") auto
  show ?thesis
    using assms r
    by (subst CommitWithRetries_loop.simps) (cases err; simp add: transport_error_def)
qed

lemma CommitWithRetries_loop_retry:
  assumes "transport_error (txner n ops)" and "\<not> cancelled n"
  shows "CommitWithRetries_loop txner cancelled ops n =
           CommitWithRetries_loop txner cancelled ops (Suc n)"
proof -
  obtain ok resp err where r: "txner n ops = (ok, resp, err)"
    by (cases "txner n ops") auto
  show ?thesis
    using assms r
    by (subst CommitWithRetries_loop.simps) (cases err; simp add: transport_error_def)
qed

lemma CommitWithRetries_loop_exits:
  assumes "n \<le> k"
    and "\<not> transport_error (txner k ops) \<or> cancelled k"
  shows "\<exists>res m. CommitWithRetries_loop txner cancelled ops n = Some (res, Suc m)
           \<and> n \<le> m \<and> m \<le> k
           \<and> (\<forall>j. n \<le> j \<and> j < m \<longrightarrow> transport_error (txner j ops) \<and> \<not> cancelled j)
           \<and> (\<not> transport_error (txner m ops) \<longrightarrow> res = txner m ops)
           \<and> (transport_error (txner m ops) \<longrightarrow>
                cancelled m \<and> res = (False, None, snd (snd (txner m ops))))"
  using assms
proof (induction "k - n" arbitrary: n)
  case 0
  then have nk: "k = n" by simp
  have ex: "\<not> transport_error (txner n ops) \<or> cancelled n"
    using "0.prems"(2) nk by simp
  show ?case
    apply (rule exI [of _ "if transport_error (txner n ops)
                 then (False, None, snd (snd (txner n ops))) else txner n ops"])
    apply (rule exI [of _ n])
    using ex nk by (auto simp add: CommitWithRetries_loop_exit [where txner=txner and n=n and ops=ops and cancelled=cancelled, OF ex])
next
  case (Suc d)
  then have nk: "n < k" by simp
  show ?case
  proof (cases "\<not> transport_error (txner n ops) \<or> cancelled n")
    case True
    show ?thesis
      apply (rule exI [of _ "if transport_error (txner n ops)
                 then (False, None, snd (snd (txner n ops))) else txner n ops"])
      apply (rule exI [of _ n])
      using True nk by (auto simp add: CommitWithRetries_loop_exit [where txner=txner and n=n and ops=ops and cancelled=cancelled, OF True])
  next
    case False
    then have f: "transport_error (txner n ops)" "\<not> cancelled n"
      by simp_all
    have "d = k - Suc n" "Suc n \<le> k"
      using Suc.hyps(2) nk by simp_all
    from Suc.hyps(1) [of "Suc n", OF this(1) this(2) Suc.prems(2)]
    obtain res m where m:
      "CommitWithRetries_loop txner cancelled ops (Suc n) = Some (res, Suc m)"
      "Suc n \<le> m" "m \<le> k"
      "\<forall>j. Suc n \<le> j \<and> j < m \<longrightarrow> transport_error (txner j ops) \<and> \<not> cancelled j"
      "\<not> transport_error (txner m ops) \<longrightarrow> res = txner m ops"
      "transport_error (txner m ops) \<longrightarrow>
         cancelled m \<and> res = (False, None, snd (snd (txner m ops)))"
      by blast
    have all: "\<forall>j. n \<le> j \<and> j < m \<longrightarrow> transport_error (txner j ops) \<and> \<not> cancelled j"
    proof (intro allI impI)
      fix j assume j: "n \<le> j \<and> j < m"
      show "transport_error (txner j ops) \<and> \<not> cancelled j"
      proof (cases "j = n")
        case True
        then show ?thesis using f by simp
      next
        case False
        then have "Suc n \<le> j \<and> j < m" using j by simp
        then show ?thesis using m(4) by blast
      qed
    qed
    have "CommitWithRetries_loop txner cancelled ops n = Some (res, Suc m)"
      using CommitWithRetries_loop_retry [where txner=txner and n=n and ops=ops and cancelled=cancelled, OF f] m(1) by simp
    moreover have "n \<le> m" using m(2) by simp
    ultimately show ?thesis
      using m(3) all m(5) m(6) by blast
  qed
qed

text \<open>
  C5. On a context that carries a transaction, \<^verbatim>\<open>CommitWithRetries\<close> returns as soon
  as a call to the store comes back without a transport error or the context is
  cancelled (here: at call number \<open>k\<close> at the latest, counted from 0). It has then
  called the store \<open>n + 1\<close> times, so at least once; every call but the last came
  back with a transport error while the context was not cancelled (so no call follows
  a success or a rollback, and only transport errors are retried); a last call without
  transport error is returned as it is; and a last call with a transport error means
  that the context was cancelled before the back-off after that very call elapsed,
  and the result is \<open>ok = False\<close> with that (non-nil) error.
\<close>

theorem CommitWithRetries_calls:
  assumes "getTxnFromContext cx h = Inr t"
    and "\<not> transport_error (txner k (kvOps t)) \<or> cancelled k"
  shows "\<exists>res n. CommitWithRetries cx txner cancelled h = Some (res, Suc n)
           \<and> n \<le> k
           \<and> (\<forall>j < n. transport_error (txner j (kvOps t)) \<and> \<not> cancelled j)
           \<and> (\<not> transport_error (txner n (kvOps t)) \<longrightarrow> res = txner n (kvOps t))
           \<and> (transport_error (txner n (kvOps t)) \<longrightarrow>
                cancelled n \<and> fst res = False \<and> snd (snd res) \<noteq> None
                \<and> snd (snd res) = snd (snd (txner n (kvOps t))))"
proof -
  have "0 \<le> k" by simp
  from CommitWithRetries_loop_exits [where n=0 and k=k and txner=txner and ops="kvOps t" and cancelled=cancelled, OF this assms(2)]
  obtain res m where m:
    "CommitWithRetries_loop txner cancelled (kvOps t) 0 = Some (res, Suc m)"
    "m \<le> k"
    "\<forall>j. 0 \<le> j \<and> j < m \<longrightarrow> transport_error (txner j (kvOps t)) \<and> \<not> cancelled j"
    "\<not> transport_error (txner m (kvOps t)) \<longrightarrow> res = txner m (kvOps t)"
    "transport_error (txner m (kvOps t)) \<longrightarrow>
       cancelled m \<and> res = (False, None, snd (snd (txner m (kvOps t))))"
    by blast
  have c1: "CommitWithRetries cx txner cancelled h = Some (res, Suc m)"
    using assms(1) m(1) by (simp add: CommitWithRetries_def)
  have c2: "\<forall>j < m. transport_error (txner j (kvOps t)) \<and> \<not> cancelled j"
    using m(3) by simp
  have c3: "transport_error (txner m (kvOps t)) \<longrightarrow>
                cancelled m \<and> fst res = False \<and> snd (snd res) \<noteq> None
                \<and> snd (snd res) = snd (snd (txner m (kvOps t)))"
  proof
    assume te: "transport_error (txner m (kvOps t))"
    then have "cancelled m" "res = (False, None, snd (snd (txner m (kvOps t))))"
      using m(5) by simp_all
    then show "cancelled m \<and> fst res = False \<and> snd (snd res) \<noteq> None
                \<and> snd (snd res) = snd (snd (txner m (kvOps t)))"
      using te by (simp add: transport_error_def)
  qed
  show ?thesis
    using c1 m(2) c2 m(4) c3 by blast
qed

theorem CommitWithRetries_calls_witness:
  "getTxnFromContext inherit_ctx inherit_h1 = Inr \<lparr>kvOps = [emptyOp], alreadyCommitted = False\<rparr>
   \<and> cancelledAfterTwo 2
   \<and> CommitWithRetries inherit_ctx erringTxner cancelledAfterTwo inherit_h1
       = Some ((False, None, Some (External ''a test error occurred'')), 3)"
proof -
  let ?t = "\<lparr>kvOps = [emptyOp], alreadyCommitted = False\<rparr>"
  have h1: "getTxnFromContext inherit_ctx inherit_h1 = Inr ?t"
    unfolding inherit_simps by (simp add: getTxnFromContext_def)
  have h2: "\<not> transport_error (erringTxner 2 (kvOps ?t)) \<or> cancelledAfterTwo 2"
    by (simp add: cancelledAfterTwo_def)
  from CommitWithRetries_calls [where txner=erringTxner and k=2 and cancelled=cancelledAfterTwo, OF h1 h2]
  obtain res n where r:
    "CommitWithRetries inherit_ctx erringTxner cancelledAfterTwo inherit_h1 = Some (res, Suc n)"
    "n \<le> 2"
    "transport_error (erringTxner n (kvOps ?t)) \<longrightarrow>
       cancelledAfterTwo n \<and> fst res = False \<and> snd (snd res) \<noteq> None
       \<and> snd (snd res) = snd (snd (erringTxner n (kvOps ?t)))"
    by blast
  have te: "transport_error (erringTxner n (kvOps ?t))"
    by (simp add: transport_error_def erringTxner_def)
  then have "2 \<le> n"
    using r(3) by (simp add: cancelledAfterTwo_def)
  then have n: "n = 2"
    using r(2) by simp
  have l2: "CommitWithRetries_loop erringTxner cancelledAfterTwo [emptyOp] 2
              = Some ((False, None, Some (External ''a test error occurred'')), 3)"
    by (subst CommitWithRetries_loop.simps) (simp add: erringTxner_def cancelledAfterTwo_def)
  have l1: "CommitWithRetries_loop erringTxner cancelledAfterTwo [emptyOp] 1
              = CommitWithRetries_loop erringTxner cancelledAfterTwo [emptyOp] 2"
    by (subst CommitWithRetries_loop.simps)
      (simp add: erringTxner_def cancelledAfterTwo_def numeral_2_eq_2)
  have l0: "CommitWithRetries_loop erringTxner cancelledAfterTwo [emptyOp] 0
              = CommitWithRetries_loop erringTxner cancelledAfterTwo [emptyOp] 1"
    by (subst CommitWithRetries_loop.simps)
      (simp add: erringTxner_def cancelledAfterTwo_def)
  have "res = (False, None, Some (External ''a test error occurred''))"
    using r(1) h1 l0 l1 l2 by (simp add: CommitWithRetries_def)
  then show ?thesis
    using r(1) n h1 by (simp add: cancelledAfterTwo_def)
qed

section \<open>Properties of the controller\<close>

lemmas rc_defs = meetDesires_def CurrentPods_def eligibleNodes_def addPods_def removePods_def
  ensureConsistency_def checkForIneligible_def transferNodes_def isNodeTransferInProgress_def
  updateAllocationsAndReschedule_def updateAllocations_def scheduleWithoutLabel_def
  sendAlert_def alertInfo_def scheduleNoAudit_def schedule_def unschedule_def
  auditBatch_def auditCommitErr_def auditCommit_def Commit_def MustCommit_def commitOutcome_def
  respErrors_def txBatch_def newTx_def newAuditingTransaction_def AddNode_def RemoveNode_def
  SetPodTxn_def DeletePodTxn_def SetLabelsTxn_def RemoveLabelsTxn_def CASTxn_def addOp_def
  MakePodLabelKey_def ListNodes_def PopAny_def Nodes_def
  addPods_loop.simps removePods_loop.simps wrapInt_def

lemmas scenario_defs = quiet_def transferring_def rc0_def w0_def man0_def manOld_def

lemma labelWrites_append: "labelWrites (xs @ ys) = labelWrites xs @ labelWrites ys"
  by (induction xs rule: labelWrites.induct) simp_all

lemma reserved_labels_differ: "PodIDLabel \<noteq> RCIDLabel"
  by (simp add: PodIDLabel_def RCIDLabel_def)

lemma scheduleNoAudit_labelWrites:
  "\<exists>n\<le>1. labelWrites (kvOps (fst (snd (scheduleNoAudit rc t node w))))
            = labelWrites (kvOps t) @ replicate n (computePodLabels rc)"
proof (cases "SetLabelsTxn t (MakePodLabelKey node (ManifestID (Manifest rc))) (computePodLabels rc)")
  case (Inl e)
  then have "labelWrites (kvOps (fst (snd (scheduleNoAudit rc t node w))))
               = labelWrites (kvOps t) @ replicate 0 (computePodLabels rc)"
    by (simp add: scheduleNoAudit_def Let_def)
  then show ?thesis by blast
next
  case (Inr t1)
  then have t1: "labelWrites (kvOps t1) = labelWrites (kvOps t) @ [computePodLabels rc]"
    by (auto simp: SetLabelsTxn_def addOp_def labelWrites_append split: if_splits)
  have "labelWrites (kvOps (fst (snd (scheduleNoAudit rc t node w))))
               = labelWrites (kvOps t) @ replicate 1 (computePodLabels rc)"
    using Inr t1
    by (auto simp: scheduleNoAudit_def Let_def SetPodTxn_def addOp_def labelWrites_append
        split: sum.splits if_splits)
  then show ?thesis by blast
qed

lemma schedule_ctx:
  "ctx (fst (snd (schedule rc txn node w))) = fst (snd (scheduleNoAudit rc (ctx txn) node w))"
  by (cases "scheduleNoAudit rc (ctx txn) node w")
    (auto simp: schedule_def AddNode_def split: option.splits)

lemma unschedule_labelWrites:
  "labelWrites (kvOps (ctx (fst (snd (unschedule rc txn node w))))) = labelWrites (kvOps (ctx txn))"
  by (auto simp: unschedule_def Let_def DeletePodTxn_def RemoveLabelsTxn_def addOp_def
      RemoveNode_def labelWrites_append split: sum.splits if_splits)

lemma unschedule_world:
  "snd (snd (unschedule rc txn node w)) = w\<lparr>logged := logged w @ [UnschedulingFrom node]\<rparr>"
  by (auto simp: unschedule_def Let_def split: sum.splits)

lemma auditCommit_calls:
  "txn_calls (snd (auditCommit P rcid a w)) = txn_calls w
   \<or> txn_calls (snd (auditCommit P rcid a w))
        = txn_calls w @ [kvOps (ctx a) @ [AuditLogOp rcid (startingNodes a) (nodes a)]]"
  by (auto simp: auditCommit_def Commit_def addOp_def split: sum.splits if_splits)

lemma finalize_calls:
  "txn_calls (snd (finalizeCompleteTransfer P rc newNode oldNode w)) = txn_calls w
   \<or> (\<exists>ops. txn_calls (snd (finalizeCompleteTransfer P rc newNode oldNode w)) = txn_calls w @ [ops]
            \<and> labelWrites ops = [computePodLabels rc])"
proof -
  obtain r w1 where cp: "CurrentPods P rc w = (r, w1)"
    by (cases "CurrentPods P rc w") auto
  then have w1: "txn_calls w1 = txn_calls w"
    by (auto simp: CurrentPods_def split: sum.splits)
  show ?thesis
  proof (cases r)
    case (Inl e)
    then show ?thesis
      using cp w1 by (simp add: finalizeCompleteTransfer_def)
  next
    case (Inr current)
    let ?txn = "AddNode (newAuditingTransaction (set (Nodes current))) newNode"
    let ?key = "MakePodLabelKey newNode (ManifestID (Manifest rc))"
    show ?thesis
    proof (cases "SetLabelsTxn (ctx ?txn) ?key (computePodLabels rc)")
      case (Inl e)
      then show ?thesis
        using cp w1 Inr by (simp add: finalizeCompleteTransfer_def Let_def)
    next
      case t1: (Inr t1)
      then have lw1: "labelWrites (kvOps t1) = [computePodLabels rc]"
        by (auto simp: SetLabelsTxn_def addOp_def AddNode_def newAuditingTransaction_def
            newTx_def split: if_splits)
      obtain e txn2 w2 where u: "unschedule rc (?txn\<lparr>ctx := t1\<rparr>) oldNode w1 = (e, txn2, w2)"
        by (cases "unschedule rc (?txn\<lparr>ctx := t1\<rparr>) oldNode w1") auto
      have lw2: "labelWrites (kvOps (ctx txn2)) = [computePodLabels rc]"
        using unschedule_labelWrites [of rc "?txn\<lparr>ctx := t1\<rparr>" oldNode w1] u lw1 by simp
      have w2: "txn_calls w2 = txn_calls w"
        using unschedule_world [of rc "?txn\<lparr>ctx := t1\<rparr>" oldNode w1] u w1 by simp
      show ?thesis
      proof (cases e)
        case (Some err)
        then show ?thesis
          using cp Inr t1 u w2 by (simp add: finalizeCompleteTransfer_def Let_def)
      next
        case None
        obtain res w3 where ac: "auditCommit P (ID rc) txn2 w2 = (res, w3)"
          by (cases "auditCommit P (ID rc) txn2 w2") auto
        have fin: "snd (finalizeCompleteTransfer P rc newNode oldNode w) = w3"
          using cp Inr t1 u None ac
          by (auto simp: finalizeCompleteTransfer_def Let_def split: prod.splits option.splits)
        from auditCommit_calls [of P "ID rc" txn2 w2] ac
        have "txn_calls w3 = txn_calls w2
              \<or> txn_calls w3 = txn_calls w2 @
                   [kvOps (ctx txn2) @ [AuditLogOp (ID rc) (startingNodes txn2) (nodes txn2)]]"
          by simp
        then show ?thesis
        proof
          assume "txn_calls w3 = txn_calls w2"
          then show ?thesis using fin w2 by simp
        next
          assume a: "txn_calls w3 = txn_calls w2 @
                   [kvOps (ctx txn2) @ [AuditLogOp (ID rc) (startingNodes txn2) (nodes txn2)]]"
          have "labelWrites (kvOps (ctx txn2) @ [AuditLogOp (ID rc) (startingNodes txn2) (nodes txn2)])
                  = [computePodLabels rc]"
            using lw2 by (simp add: labelWrites_append)
          then show ?thesis using fin w2 a by auto
        qed
      qed
    qed
  qed
qed

text \<open>
  C10. The label map that \<^verbatim>\<open>computePodLabels\<close> builds has \<^verbatim>\<open>pod_id\<close> equal to the ID
  of the manifest and \<^verbatim>\<open>replication_controller_id\<close> equal to the ID of the
  controller, whatever the user's \<^verbatim>\<open>PodLabels\<close> say for these two keys, and keeps the
  user's value for every other key. Every label write of \<^verbatim>\<open>scheduleNoAudit\<close> and of
  \<^verbatim>\<open>schedule\<close> (at most one per call, after the label writes that the transaction held
  before) and the label write in the transaction that \<^verbatim>\<open>finalizeCompleteTransfer\<close>
  submits carry exactly this map.
\<close>

theorem label_writes_carry_reserved_labels:
  "computePodLabels rc PodIDLabel = Some (ManifestID (Manifest rc))
   \<and> computePodLabels rc RCIDLabel = Some (ID rc)
   \<and> (\<forall>k. k \<noteq> PodIDLabel \<and> k \<noteq> RCIDLabel \<longrightarrow> computePodLabels rc k = PodLabels rc k)
   \<and> (\<exists>n\<le>1. labelWrites (kvOps (fst (snd (scheduleNoAudit rc t node w))))
               = labelWrites (kvOps t) @ replicate n (computePodLabels rc))
   \<and> (\<exists>n\<le>1. labelWrites (kvOps (ctx (fst (snd (schedule rc txn node w)))))
               = labelWrites (kvOps (ctx txn)) @ replicate n (computePodLabels rc))
   \<and> (txn_calls (snd (finalizeCompleteTransfer P rc newNode oldNode w)) = txn_calls w
      \<or> (\<exists>ops. txn_calls (snd (finalizeCompleteTransfer P rc newNode oldNode w))
                 = txn_calls w @ [ops]
               \<and> labelWrites ops = [computePodLabels rc]))"
proof -
  have a: "computePodLabels rc PodIDLabel = Some (ManifestID (Manifest rc))"
    using reserved_labels_differ by (simp add: computePodLabels_def)
  have b: "computePodLabels rc RCIDLabel = Some (ID rc)"
    by (simp add: computePodLabels_def)
  have c: "\<forall>k. k \<noteq> PodIDLabel \<and> k \<noteq> RCIDLabel \<longrightarrow> computePodLabels rc k = PodLabels rc k"
    by (simp add: computePodLabels_def)
  have d: "\<exists>n\<le>1. labelWrites (kvOps (ctx (fst (snd (schedule rc txn node w)))))
               = labelWrites (kvOps (ctx txn)) @ replicate n (computePodLabels rc)"
    using scheduleNoAudit_labelWrites [of rc "ctx txn" node w] by (simp add: schedule_ctx)
  show ?thesis
    using a b c d scheduleNoAudit_labelWrites [of rc t node w]
      finalize_calls [of P rc newNode oldNode w]
    by blast
qed

theorem label_writes_carry_reserved_labels_witness:
  "computePodLabels rc0 ''pod_id'' = Some ''thepod''
   \<and> computePodLabels rc0 ''replication_controller_id'' = Some ''rc1''
   \<and> (\<exists>ops. txn_calls (snd (finalizeCompleteTransfer
                 (quiet [(''n1'', ''thepod'')] [''n2''] (\<lambda>n. Some man0)) rc0 ''n2'' ''n1'' w0))
               = [ops]
             \<and> labelWrites ops = [computePodLabels rc0])"
proof -
  let ?P = "quiet [(''n1'', ''thepod'')] [''n2''] (\<lambda>n. Some man0)"
  let ?w = "snd (finalizeCompleteTransfer ?P rc0 ''n2'' ''n1'' w0)"
  have one: "txn_calls ?w \<noteq> []"
    by (simp add: finalizeCompleteTransfer_def rc_defs scenario_defs Let_def)
  have w0c: "txn_calls w0 = []"
    by (simp add: w0_def)
  have ids: "ID rc0 = ''rc1''" "ManifestID (Manifest rc0) = ''thepod''"
    by (simp_all add: rc0_def man0_def)
  note T = label_writes_carry_reserved_labels [of rc0 newTx "''n1''" w0
      "newAuditingTransaction {}" ?P "''n2''" "''n1''"]
  have a: "computePodLabels rc0 ''pod_id'' = Some ''thepod''"
    using T ids by (simp add: PodIDLabel_def)
  have b: "computePodLabels rc0 ''replication_controller_id'' = Some ''rc1''"
    using T ids by (simp add: RCIDLabel_def)
  from T have "txn_calls ?w = txn_calls w0
      \<or> (\<exists>ops. txn_calls ?w = txn_calls w0 @ [ops] \<and> labelWrites ops = [computePodLabels rc0])"
    by (elim conjE)
  with one w0c have c: "\<exists>ops. txn_calls ?w = [ops] \<and> labelWrites ops = [computePodLabels rc0]"
    by simp
  show ?thesis
    using a b c by (intro conjI)
qed

text \<open>
  C3 (what the code does). The controller is disabled while the status
  records a node transfer from \<open>n1\<close> to \<open>n2\<close>. \<^verbatim>\<open>meetDesires\<close> returns no error and
  leaves nothing behind but its first log line: no transaction, no read, no call to
  the scheduler, no alert. Nothing is done about the transfer, which the status
  still shows as in progress.
\<close>

theorem disabled_does_not_cancel_transfer:
  "meetDesires transferring (rc0\<lparr>Disabled := True\<rparr>) w0
     = (None, w0\<lparr>logged := [HandlingUpdate 1 True]\<rparr>)
   \<and> fst (isNodeTransferInProgress transferring (rc0\<lparr>Disabled := True\<rparr>)
            (snd (meetDesires transferring (rc0\<lparr>Disabled := True\<rparr>) w0)))
       = (True, None)"
  by (simp add: meetDesires_def isNodeTransferInProgress_def scenario_defs Let_def)

text \<open>
  C4 (what the code does). A controller that is not cattle has its one
  pod on \<open>n1\<close>, and only \<open>n2\<close> is eligible; the alerter works and the stored intent
  is consistent. The pass sends one alert and writes nothing, but it returns no
  error: \<^verbatim>\<open>updateAllocationsAndReschedule\<close> returns the error of the alerter, which
  is nil.
\<close>

theorem pinned_ineligible_returns_no_error:
  "fst (meetDesires (quiet [(''n1'', ''thepod'')] [''n2''] (\<lambda>n. Some man0))
          (rc0\<lparr>AllocationStrategy := PinnedStrategy\<rparr>) w0) = None
   \<and> alerts (snd (meetDesires (quiet [(''n1'', ''thepod'')] [''n2''] (\<lambda>n. Some man0))
          (rc0\<lparr>AllocationStrategy := PinnedStrategy\<rparr>) w0))
       = [alertInfo (quiet [(''n1'', ''thepod'')] [''n2''] (\<lambda>n. Some man0))
            (rc0\<lparr>AllocationStrategy := PinnedStrategy\<rparr>) (NonCattleIneligible 1 [''n1''])]
   \<and> txn_calls (snd (meetDesires (quiet [(''n1'', ''thepod'')] [''n2''] (\<lambda>n. Some man0))
          (rc0\<lparr>AllocationStrategy := PinnedStrategy\<rparr>) w0)) = []
   \<and> fst (updateAllocationsAndReschedule (quiet [(''n1'', ''thepod'')] [''n2''] (\<lambda>n. Some man0))
          (rc0\<lparr>AllocationStrategy := PinnedStrategy\<rparr>) [''n1''] w0) = (None, None)"
  by (simp add: rc_defs scenario_defs Let_def)

text \<open>
  C2 (as stated). The claim says that \<^verbatim>\<open>ensureConsistency\<close> appends no label
  operation. For one placement on \<open>n1\<close> without a stored intent, the transaction it
  submits holds a label write for \<open>n1\<close> before the intent write.
\<close>

theorem ensureConsistency_label_counterexample:
  "txn_calls (snd (ensureConsistency (quiet [(''n1'', ''thepod'')] [''n1''] (\<lambda>n. None)) rc0
                     [\<lparr>Node = ''n1'', PodID = ''thepod''\<rparr>] w0))
     = [[SetLabelsOp ''n1/thepod'' (computePodLabels rc0), SetPodOp INTENT_TREE ''n1'' man0]]"
  by (simp add: rc_defs scenario_defs Let_def)

lemma scheduledNodes_append:
  "scheduledNodes (xs @ ys) = scheduledNodes xs @ scheduledNodes ys"
  by (induction xs rule: scheduledNodes.induct) simp_all

lemma unscheduledNodes_append:
  "unscheduledNodes (xs @ ys) = unscheduledNodes xs @ unscheduledNodes ys"
  by (induction xs rule: unscheduledNodes.induct) simp_all

lemma Commit_logged: "logged (snd (Commit P t w)) = logged w"
  by (simp add: Commit_def)

lemma auditCommit_logged: "logged (snd (auditCommit P rcid a w)) = logged w"
  by (simp add: auditCommit_def Commit_logged split: sum.splits)

lemma auditCommitErr_logged: "logged (snd (auditCommitErr P rc txn w)) = logged w"
  using auditCommit_logged [of P "ID rc" txn w]
  by (auto simp: auditCommitErr_def split: prod.splits)

lemma auditBatch_logged: "logged (snd (snd (auditBatch P rc i txn w))) = logged w"
  using auditCommit_logged [of P "ID rc" txn w]
  by (auto simp: auditBatch_def split: prod.splits option.splits)

lemma sendAlert_scheduledNodes:
  "scheduledNodes (logged (snd (sendAlert P rc msg w))) = scheduledNodes (logged w)"
  by (simp add: sendAlert_def Let_def scheduledNodes_append split: option.splits)

lemma scheduleNoAudit_world:
  "snd (snd (scheduleNoAudit rc t node w)) = w\<lparr>logged := logged w @ [SchedulingOn node]\<rparr>"
  by (simp add: scheduleNoAudit_def Let_def split: sum.splits)

lemma schedule_world:
  "snd (snd (schedule rc txn node w)) = w\<lparr>logged := logged w @ [SchedulingOn node]\<rparr>"
  using scheduleNoAudit_world [of rc "ctx txn" node w]
  by (auto simp: schedule_def split: prod.splits option.splits)

lemma scheduleNoAudit_ok:
  assumes "\<not> alreadyCommitted t" and "length (kvOps t) \<le> 62"
  shows "scheduleNoAudit rc t node w
           = (None, t\<lparr>kvOps := kvOps t @ scheduleOps rc node\<rparr>,
              w\<lparr>logged := logged w @ [SchedulingOn node]\<rparr>)"
  using assms
  by (simp add: scheduleNoAudit_def SetLabelsTxn_def SetPodTxn_def addOp_def scheduleOps_def
      Let_def)

lemma batchBound_Suc: "2 * (i mod 5) + 2 \<le> batchBound (Suc i)"
  by (simp add: batchBound_def mod_Suc)

lemma batchBound_head:
  "\<not> (i mod 5 = 0 \<and> i > 0) \<Longrightarrow> batchBound i = 2 * (i mod 5)"
  by (auto simp: batchBound_def)

lemma withoutAudit_append: "withoutAudit (xs @ ys) = withoutAudit xs @ withoutAudit ys"
  by (simp add: withoutAudit_def)

lemma withoutAudit_scheduleOps: "withoutAudit (scheduleOps rc node) = scheduleOps rc node"
  by (simp add: withoutAudit_def scheduleOps_def)

lemma schedule_ok:
  assumes "\<not> alreadyCommitted (ctx txn)" and "length (kvOps (ctx txn)) \<le> 62"
  shows "\<exists>txn2. schedule rc txn node w
                 = (None, txn2, w\<lparr>logged := logged w @ [SchedulingOn node]\<rparr>)
              \<and> kvOps (ctx txn2) = kvOps (ctx txn) @ scheduleOps rc node
              \<and> \<not> alreadyCommitted (ctx txn2)"
  using assms scheduleNoAudit_ok [OF assms, of rc node w]
  by (simp add: schedule_def AddNode_def)

lemma sendAlert_alerts:
  "alerts (snd (sendAlert P rc msg w)) = alerts w @ [alertInfo P rc msg]
   \<and> txn_calls (snd (sendAlert P rc msg w)) = txn_calls w"
  by (simp add: sendAlert_def Let_def split: option.splits)

lemma wrapInt_in_range:
  "- 9223372036854775808 \<le> x \<Longrightarrow> x < 9223372036854775808 \<Longrightarrow> wrapInt x = x"
  by (simp add: wrapInt_def)

lemma wrapInt_wraps:
  "wrapInt (- 9223372036854775808 - 1) = 9223372036854775807"
  "wrapInt (1 - (- 9223372036854775808)) = - 9223372036854775807"
  by (simp_all add: wrapInt_def)

lemma batchBound_le: "batchBound i \<le> 10"
  by (simp add: batchBound_def)

lemma unschedule_ok:
  assumes "\<not> alreadyCommitted (ctx txn)" and "length (kvOps (ctx txn)) \<le> 62"
  shows "\<exists>txn2. unschedule rc txn node w
                 = (None, txn2, w\<lparr>logged := logged w @ [UnschedulingFrom node]\<rparr>)
              \<and> kvOps (ctx txn2) = kvOps (ctx txn) @ unscheduleOps rc node
              \<and> \<not> alreadyCommitted (ctx txn2)"
  using assms
  by (simp add: unschedule_def DeletePodTxn_def RemoveLabelsTxn_def addOp_def RemoveNode_def
      unscheduleOps_def Let_def)

lemma withoutAudit_unscheduleOps: "withoutAudit (unscheduleOps rc node) = unscheduleOps rc node"
  by (simp add: withoutAudit_def unscheduleOps_def)

lemma auditCommit_submits:
  assumes "\<not> alreadyCommitted (ctx a)" and "length (kvOps (ctx a)) \<le> 63"
  shows "withoutAudit (concat (txn_calls (snd (auditCommit P rcid a w))))
           = withoutAudit (concat (txn_calls w)) @ withoutAudit (kvOps (ctx a))"
  using assms
  by (simp add: auditCommit_def addOp_def Commit_def withoutAudit_def)

lemma auditCommitErr_world:
  "snd (auditCommitErr P rc txn w) = snd (auditCommit P (ID rc) txn w)"
  by (simp add: auditCommitErr_def split: prod.splits)

lemma auditBatch_submits:
  assumes "\<not> alreadyCommitted (ctx txn)" and "length (kvOps (ctx txn)) \<le> batchBound i"
    and "auditBatch P rc i txn w = (be, txn1, w1)"
  shows "(be \<noteq> None \<longrightarrow>
            withoutAudit (concat (txn_calls w1))
              = withoutAudit (concat (txn_calls w)) @ withoutAudit (kvOps (ctx txn)))
       \<and> (be = None \<longrightarrow>
            \<not> alreadyCommitted (ctx txn1) \<and> length (kvOps (ctx txn1)) \<le> 2 * (i mod 5)
            \<and> withoutAudit (concat (txn_calls w1)) @ withoutAudit (kvOps (ctx txn1))
                = withoutAudit (concat (txn_calls w)) @ withoutAudit (kvOps (ctx txn)))"
proof (cases "i mod 5 = 0 \<and> i > 0")
  case True
  have le: "length (kvOps (ctx txn)) \<le> 63"
    using assms(2) batchBound_le [of i] by simp
  obtain r w' where c: "auditCommit P (ID rc) txn w = (r, w')"
    by (cases "auditCommit P (ID rc) txn w") auto
  have sub: "withoutAudit (concat (txn_calls w'))
               = withoutAudit (concat (txn_calls w)) @ withoutAudit (kvOps (ctx txn))"
    using auditCommit_submits [OF assms(1) le, of P "ID rc" w] c by simp
  show ?thesis
  proof (cases "commitOutcome r")
    case None
    then have "be = None" "txn1 = newAuditingTransaction (nodes txn)" "w1 = w'"
      using assms(3) True c by (simp_all add: auditBatch_def)
    then show ?thesis
      using sub by (simp add: newAuditingTransaction_def newTx_def withoutAudit_def)
  next
    case (Some e)
    then have "be = Some e" "w1 = w'"
      using assms(3) True c by (simp_all add: auditBatch_def)
    then show ?thesis
      using sub by simp
  qed
next
  case False
  then have "be = None" "txn1 = txn" "w1 = w"
    using assms(3) by (auto simp: auditBatch_def)
  then show ?thesis
    using assms(1,2) batchBound_head [OF False] by simp
qed

lemma sendAlert_unscheduledNodes:
  "unscheduledNodes (logged (snd (sendAlert P rc msg w))) = unscheduledNodes (logged w)"
  by (simp add: sendAlert_def Let_def unscheduledNodes_append split: option.splits)

lemma addPods_loop_schedules:
  assumes "i \<le> length ps"
    and "\<not> alreadyCommitted (ctx txn)" and "length (kvOps (ctx txn)) \<le> batchBound i"
  shows "\<exists>k. i \<le> k \<and> k \<le> length ps
      \<and> scheduledNodes (logged (snd (addPods_loop P rc cn el ps ts i txn w)))
          = scheduledNodes (logged w) @ take (k - i) (drop i ps)
      \<and> withoutAudit (concat (txn_calls (snd (addPods_loop P rc cn el ps ts i txn w))))
          = withoutAudit (concat (txn_calls w)) @ withoutAudit (kvOps (ctx txn))
            @ concat (map (scheduleOps rc) (take (k - i) (drop i ps)))
      \<and> (fst (addPods_loop P rc cn el ps ts i txn w) = None \<longrightarrow> int k = max ts (int i))"
  using assms
proof (induction P rc cn el ps ts i txn w rule: addPods_loop.induct)
  case (1 P rc cn el ps ts i txn w)
  let ?res = "addPods_loop P rc cn el ps ts i txn w"
  let ?q = "withoutAudit (concat (txn_calls w)) @ withoutAudit (kvOps (ctx txn))"
  have stop: "scheduledNodes (logged (snd ?res)) = scheduledNodes (logged w) \<Longrightarrow>
              withoutAudit (concat (txn_calls (snd ?res))) = ?q \<Longrightarrow>
              (fst ?res = None \<longrightarrow> int i = max ts (int i)) \<Longrightarrow> ?case"
    using "1.prems"(1) by (intro exI [of _ i]) simp
  have le63: "length (kvOps (ctx txn)) \<le> 63"
    using "1.prems"(3) batchBound_le [of i] by simp
  show ?case
  proof (cases "int i < ts")
    case False
    then have r: "?res = auditCommitErr P rc txn w"
      by (subst addPods_loop.simps) simp
    show ?thesis
    proof (rule stop)
      show "scheduledNodes (logged (snd ?res)) = scheduledNodes (logged w)"
        using r by (simp add: auditCommitErr_logged)
      show "withoutAudit (concat (txn_calls (snd ?res))) = ?q"
        using r auditCommit_submits [OF "1.prems"(2) le63, of P "ID rc" w]
        by (simp add: auditCommitErr_world)
      show "fst ?res = None \<longrightarrow> int i = max ts (int i)"
        using False by simp
    qed
  next
    case True
    obtain be txn1 w1 where b: "auditBatch P rc i txn w = (be, txn1, w1)"
      by (cases "auditBatch P rc i txn w") auto
    have w1: "logged w1 = logged w"
      using auditBatch_logged [of P rc i txn w] b by simp
    note bs = auditBatch_submits [OF "1.prems"(2,3) b]
    show ?thesis
    proof (cases be)
      case (Some e)
      then have r: "?res = (Some e, w1)"
        using True b by (subst addPods_loop.simps) simp
      show ?thesis
        using r w1 bs Some by (intro stop) simp_all
    next
      case None
      have t1: "\<not> alreadyCommitted (ctx txn1)" "length (kvOps (ctx txn1)) \<le> 2 * (i mod 5)"
        "withoutAudit (concat (txn_calls w1)) @ withoutAudit (kvOps (ctx txn1)) = ?q"
        using bs None by simp_all
      have small: "length (kvOps (ctx txn1)) \<le> 62" "length (kvOps (ctx txn1)) \<le> 63"
        "length (kvOps (ctx txn1)) + 2 \<le> batchBound (Suc i)"
        using t1(2) batchBound_Suc [of i] by simp_all
      show ?thesis
      proof (cases "length ps < i + 1")
        case short: True
        let ?msg = "NotEnoughNodes (ReplicasDesired rc) (length cn) (length el) i"
        obtain ae w2 where a: "sendAlert P rc ?msg w1 = (ae, w2)"
          by (cases "sendAlert P rc ?msg w1") auto
        obtain ce w3 where c: "auditCommitErr P rc txn1 w2 = (ce, w3)"
          by (cases "auditCommitErr P rc txn1 w2") auto
        have eq: "?res = (case ce of Some txnErr \<Rightarrow> (Some txnErr, w3) | None \<Rightarrow> (Some ?msg, w3))"
          using True b None short a c by (subst addPods_loop.simps) (simp add: Let_def)
        have l3: "logged w3 = logged w2"
          using auditCommitErr_logged [of P rc txn1 w2] c by simp
        have l2: "scheduledNodes (logged w2) = scheduledNodes (logged w1)"
          "txn_calls w2 = txn_calls w1"
          using sendAlert_scheduledNodes [of P rc ?msg w1] sendAlert_alerts [of P rc ?msg w1] a
          by simp_all
        have c3: "withoutAudit (concat (txn_calls w3))
                    = withoutAudit (concat (txn_calls w2)) @ withoutAudit (kvOps (ctx txn1))"
          using auditCommit_submits [OF t1(1) small(2), of P "ID rc" w2] c
            auditCommitErr_world [of P rc txn1 w2] by simp
        show ?thesis
        proof (rule stop)
          show "scheduledNodes (logged (snd ?res)) = scheduledNodes (logged w)"
            using eq l3 l2(1) w1 by (simp split: option.splits)
          show "withoutAudit (concat (txn_calls (snd ?res))) = ?q"
            using eq c3 l2(2) t1(3) by (simp split: option.splits)
          show "fst ?res = None \<longrightarrow> int i = max ts (int i)"
            using eq by (simp split: option.splits)
        qed
      next
        case long: False
        then have il: "i < length ps" by simp
        obtain txn2 where s:
          "schedule rc txn1 (ps ! i) w1
             = (None, txn2, w1\<lparr>logged := logged w1 @ [SchedulingOn (ps ! i)]\<rparr>)"
          "kvOps (ctx txn2) = kvOps (ctx txn1) @ scheduleOps rc (ps ! i)"
          "\<not> alreadyCommitted (ctx txn2)"
          using schedule_ok [OF t1(1) small(1), of rc "ps ! i" w1] by blast
        let ?w2 = "w1\<lparr>logged := logged w1 @ [SchedulingOn (ps ! i)]\<rparr>"
        have rec: "?res = addPods_loop P rc cn el ps ts (Suc i) txn2 ?w2"
          using True b None long s(1) by (subst addPods_loop.simps) simp
        have si: "Suc i \<le> length ps" using il by simp
        have bd: "length (kvOps (ctx txn2)) \<le> batchBound (Suc i)"
          using s(2) small(3) by (simp add: scheduleOps_def)
        have none: "None = (None :: error option)" by simp
        have b': "(be, txn1, w1) = auditBatch P rc i txn w" "be = None" "(txn1, w1) = (txn1, w1)"
          using b None by simp_all
        from "1.IH" [OF True b'(1) b'(2) b'(3) long s(1) [symmetric] none _ si s(3) bd]
        obtain k where k: "Suc i \<le> k" "k \<le> length ps"
          "scheduledNodes (logged (snd (addPods_loop P rc cn el ps ts (Suc i) txn2 ?w2)))
             = scheduledNodes (logged ?w2) @ take (k - Suc i) (drop (Suc i) ps)"
          "withoutAudit (concat (txn_calls (snd (addPods_loop P rc cn el ps ts (Suc i) txn2 ?w2))))
             = withoutAudit (concat (txn_calls ?w2)) @ withoutAudit (kvOps (ctx txn2))
               @ concat (map (scheduleOps rc) (take (k - Suc i) (drop (Suc i) ps)))"
          "fst (addPods_loop P rc cn el ps ts (Suc i) txn2 ?w2) = None
             \<longrightarrow> int k = max ts (int (Suc i))"
          by auto
        have tk: "take (k - i) (drop i ps) = ps ! i # take (k - Suc i) (drop (Suc i) ps)"
          using il k(1)
          by (metis Cons_nth_drop_Suc Suc_diff_Suc Suc_le_lessD take_Suc_Cons)
        have "scheduledNodes (logged (snd ?res))
                = scheduledNodes (logged w) @ take (k - i) (drop i ps)"
          using rec k(3) w1 tk by (simp add: scheduledNodes_append)
        moreover have "withoutAudit (concat (txn_calls ?w2)) @ withoutAudit (kvOps (ctx txn2))
                         = ?q @ scheduleOps rc (ps ! i)"
          using s(2) t1(3) by (simp add: withoutAudit_append withoutAudit_scheduleOps)
        then have "withoutAudit (concat (txn_calls (snd ?res)))
                     = ?q @ concat (map (scheduleOps rc) (take (k - i) (drop i ps)))"
          using rec k(4) tk by simp
        moreover have "fst ?res = None \<longrightarrow> int k = max ts (int i)"
          using rec k(5) True by auto
        moreover have "i \<le> k" using k(1) by simp
        ultimately show ?thesis
          using k(2) by (intro exI [of _ k]) simp
      qed
    qed
  qed
qed

text \<open>
  C7. Within one \<^verbatim>\<open>addPods\<close> pass the candidates are the eligible nodes that are not
  current, listed in strictly ascending order of hostname, and the pass takes them
  in this order without a gap: for some \<open>k\<close>, the nodes it schedules on are the
  first \<open>k\<close> candidates, and the scheduling operations it submits to the store,
  whatever the store answers, are the label write and the intent write for the first
  candidate, then those for the second, and so on up to the \<open>k\<close>-th: the i-th
  scheduling action is on the i-th smallest hostname. When the pass succeeds \<open>k\<close> is
  the number of pods to schedule (a difference of Go \<^verbatim>\<open>int\<close>s).
\<close>

theorem addPods_sorted_order:
  "\<exists>k \<le> length (ListNodes (set eligible - set (Nodes current))).
      scheduledNodes (logged (snd (addPods P rc current eligible w)))
        = scheduledNodes (logged w) @ take k (ListNodes (set eligible - set (Nodes current)))
      \<and> withoutAudit (concat (txn_calls (snd (addPods P rc current eligible w))))
        = withoutAudit (concat (txn_calls w))
          @ concat (map (\<lambda>node.
                [SetLabelsOp (MakePodLabelKey node (ManifestID (Manifest rc)))
                   (computePodLabels rc),
                 SetPodOp INTENT_TREE node (Manifest rc)])
              (take k (ListNodes (set eligible - set (Nodes current)))))
      \<and> (fst (addPods P rc current eligible w) = None \<longrightarrow>
           int k = max (wrapInt (ReplicasDesired rc - int (length (Nodes current)))) 0)
      \<and> sorted_wrt (<) (ListNodes (set eligible - set (Nodes current)))
      \<and> set (ListNodes (set eligible - set (Nodes current)))
          = set eligible - set (Nodes current)"
proof -
  let ?ps = "ListNodes (set eligible - set (Nodes current))"
  let ?ts = "wrapInt (ReplicasDesired rc - int (length (Nodes current)))"
  let ?w1 = "w\<lparr>logged := logged w @ [NeedToSchedule ?ts (set eligible - set (Nodes current))]\<rparr>"
  let ?txn = "newAuditingTransaction (set (Nodes current))"
  have eq: "addPods P rc current eligible w
              = addPods_loop P rc (Nodes current) eligible ?ps ?ts 0 ?txn ?w1"
    by (simp add: addPods_def Let_def)
  have t: "\<not> alreadyCommitted (ctx ?txn)" "length (kvOps (ctx ?txn)) \<le> batchBound 0"
    "withoutAudit (kvOps (ctx ?txn)) = []"
    by (simp_all add: newAuditingTransaction_def newTx_def withoutAudit_def)
  have "0 \<le> length ?ps" by simp
  from addPods_loop_schedules [OF this t(1,2), of P rc "Nodes current" eligible ?ts ?w1]
  obtain k where k: "k \<le> length ?ps"
    "scheduledNodes (logged (snd (addPods P rc current eligible w)))
       = scheduledNodes (logged ?w1) @ take k ?ps"
    "withoutAudit (concat (txn_calls (snd (addPods P rc current eligible w))))
       = withoutAudit (concat (txn_calls ?w1)) @ withoutAudit (kvOps (ctx ?txn))
         @ concat (map (scheduleOps rc) (take k ?ps))"
    "fst (addPods P rc current eligible w) = None \<longrightarrow> int k = max ?ts 0"
    unfolding eq by auto
  have l: "scheduledNodes (logged ?w1) = scheduledNodes (logged w)"
    by (simp add: scheduledNodes_append)
  have so: "scheduleOps rc = (\<lambda>node.
                [SetLabelsOp (MakePodLabelKey node (ManifestID (Manifest rc)))
                   (computePodLabels rc),
                 SetPodOp INTENT_TREE node (Manifest rc)])"
    by (rule ext) (simp add: scheduleOps_def)
  have ops: "withoutAudit (concat (txn_calls (snd (addPods P rc current eligible w))))
       = withoutAudit (concat (txn_calls w)) @ concat (map (scheduleOps rc) (take k ?ps))"
    using k(3) t(3) by simp
  have fin: "finite (set eligible - set (Nodes current))" by simp
  have s: "sorted_wrt (<) ?ps" "set ?ps = set eligible - set (Nodes current)"
    using fin by (simp_all add: ListNodes_def)
  show ?thesis
    using k(1,2,4) ops l s unfolding so by (intro exI [of _ k]) simp
qed

theorem addPods_sorted_order_witness:
  "scheduledNodes (logged (snd (addPods (quiet [] [''n3'', ''n1'', ''n2'', ''n4''] (\<lambda>n. None))
       (rc0\<lparr>ReplicasDesired := 3\<rparr>) [] [''n3'', ''n1'', ''n2'', ''n4''] w0)))
     = [''n1'', ''n2'', ''n3'']
   \<and> withoutAudit (concat (txn_calls (snd (addPods
          (quiet [] [''n3'', ''n1'', ''n2'', ''n4''] (\<lambda>n. None))
          (rc0\<lparr>ReplicasDesired := 3\<rparr>) [] [''n3'', ''n1'', ''n2'', ''n4''] w0))))
     = [SetLabelsOp ''n1/thepod'' (computePodLabels (rc0\<lparr>ReplicasDesired := 3\<rparr>)),
        SetPodOp INTENT_TREE ''n1'' man0,
        SetLabelsOp ''n2/thepod'' (computePodLabels (rc0\<lparr>ReplicasDesired := 3\<rparr>)),
        SetPodOp INTENT_TREE ''n2'' man0,
        SetLabelsOp ''n3/thepod'' (computePodLabels (rc0\<lparr>ReplicasDesired := 3\<rparr>)),
        SetPodOp INTENT_TREE ''n3'' man0]
   \<and> last (concat (txn_calls (snd (addPods
          (quiet [] [''n3'', ''n1'', ''n2'', ''n4''] (\<lambda>n. None))
          (rc0\<lparr>ReplicasDesired := 3\<rparr>) [] [''n3'', ''n1'', ''n2'', ''n4''] w0))))
     = AuditLogOp ''rc1'' {} {''n3'', ''n2'', ''n1''}"
proof -
  let ?P = "quiet [] [''n3'', ''n1'', ''n2'', ''n4''] (\<lambda>n. None)"
  let ?el = "[''n3'', ''n1'', ''n2'', ''n4'']"
  let ?rc = "rc0\<lparr>ReplicasDesired := 3\<rparr>"
  let ?r = "addPods ?P ?rc [] ?el w0"
  have ok: "fst ?r = None"
    by (simp add: rc_defs scenario_defs Let_def)
  have ps: "ListNodes (set ?el - set (Nodes [])) = [''n1'', ''n2'', ''n3'', ''n4'']"
    by (simp add: ListNodes_def Nodes_def)
  have l0: "scheduledNodes (logged w0) = []" "txn_calls w0 = []"
    by (simp_all add: w0_def)
  have d: "wrapInt (ReplicasDesired ?rc - int (length (Nodes []))) = 3"
    by (simp add: Nodes_def wrapInt_def)
  have ids: "ManifestID (Manifest ?rc) = ''thepod''" "Manifest ?rc = man0"
    by (simp_all add: rc0_def man0_def)
  from addPods_sorted_order [of ?el "[]" ?P ?rc w0]
  obtain k where k: "scheduledNodes (logged (snd ?r))
        = scheduledNodes (logged w0) @ take k (ListNodes (set ?el - set (Nodes [])))"
      "withoutAudit (concat (txn_calls (snd ?r)))
        = withoutAudit (concat (txn_calls w0))
          @ concat (map (\<lambda>node.
                [SetLabelsOp (MakePodLabelKey node (ManifestID (Manifest ?rc)))
                   (computePodLabels ?rc),
                 SetPodOp INTENT_TREE node (Manifest ?rc)])
              (take k (ListNodes (set ?el - set (Nodes [])))))"
      "fst ?r = None \<longrightarrow>
           int k = max (wrapInt (ReplicasDesired ?rc - int (length (Nodes [])))) 0"
    by (elim exE conjE) (rule that, assumption+)
  have k3: "k = 3"
    using k(3) ok d by simp
  have a: "scheduledNodes (logged (snd ?r)) = [''n1'', ''n2'', ''n3'']"
    using k(1) ps l0 k3 by (simp add: numeral_3_eq_3)
  have b: "withoutAudit (concat (txn_calls (snd ?r)))
     = [SetLabelsOp ''n1/thepod'' (computePodLabels ?rc), SetPodOp INTENT_TREE ''n1'' man0,
        SetLabelsOp ''n2/thepod'' (computePodLabels ?rc), SetPodOp INTENT_TREE ''n2'' man0,
        SetLabelsOp ''n3/thepod'' (computePodLabels ?rc), SetPodOp INTENT_TREE ''n3'' man0]"
    using k(2) ps l0 k3 ids
    by (simp add: numeral_3_eq_3 withoutAudit_def MakePodLabelKey_def)
  have c: "last (concat (txn_calls (snd ?r))) = AuditLogOp ''rc1'' {} {''n3'', ''n2'', ''n1''}"
    by (simp add: rc_defs scenario_defs Let_def)
  show ?thesis
    using a b c by (intro conjI)
qed

lemma PopAny_Some:
  assumes "\<forall>S. finite S \<and> S \<noteq> {} \<longrightarrow> pick P S \<in> S" and "finite S"
    and "PopAny P S = (Some n, S')"
  shows "n \<in> S \<and> S' = S - {n}"
  using assms by (auto simp: PopAny_def split: if_splits)

lemma PopAny_None:
  assumes "PopAny P S = (None, S')"
  shows "S = {} \<and> S' = {}"
  using assms by (auto simp: PopAny_def split: if_splits)

lemma removePods_loop_unschedules:
  assumes "\<forall>S. finite S \<and> S \<noteq> {} \<longrightarrow> pick P S \<in> S"
    and "finite pr" and "finite rs"
    and "\<not> alreadyCommitted (ctx txn)" and "length (kvOps (ctx txn)) \<le> batchBound i"
  shows "\<exists>us vs. unscheduledNodes (logged (snd (removePods_loop P rc cur tu i pr rs txn w)))
                   = unscheduledNodes (logged w) @ us @ vs
               \<and> withoutAudit (concat (txn_calls (snd (removePods_loop P rc cur tu i pr rs txn w))))
                   = withoutAudit (concat (txn_calls w)) @ withoutAudit (kvOps (ctx txn))
                     @ concat (map (unscheduleOps rc) (us @ vs))
               \<and> set us \<subseteq> pr \<and> set vs \<subseteq> rs \<and> (vs \<noteq> [] \<longrightarrow> set us = pr)
               \<and> (fst (removePods_loop P rc cur tu i pr rs txn w) = None \<longrightarrow>
                    int i + int (length (us @ vs)) = max tu (int i))"
  using assms
proof (induction P rc cur tu i pr rs txn w rule: removePods_loop.induct)
  case (1 P rc cur tu i pr rs txn w)
  let ?res = "removePods_loop P rc cur tu i pr rs txn w"
  let ?q = "withoutAudit (concat (txn_calls w)) @ withoutAudit (kvOps (ctx txn))"
  have stop: "unscheduledNodes (logged (snd ?res)) = unscheduledNodes (logged w) \<Longrightarrow>
              withoutAudit (concat (txn_calls (snd ?res))) = ?q \<Longrightarrow>
              (fst ?res = None \<longrightarrow> int i = max tu (int i)) \<Longrightarrow> ?case"
    by (intro exI [of _ "[]"]) simp
  have le63: "length (kvOps (ctx txn)) \<le> 63"
    using "1.prems"(5) batchBound_le [of i] by simp
  show ?case
  proof (cases "int i < tu")
    case False
    then have r: "?res = auditCommitErr P rc txn w"
      by (subst removePods_loop.simps) simp
    show ?thesis
    proof (rule stop)
      show "unscheduledNodes (logged (snd ?res)) = unscheduledNodes (logged w)"
        using r by (simp add: auditCommitErr_logged)
      show "withoutAudit (concat (txn_calls (snd ?res))) = ?q"
        using r auditCommit_submits [OF "1.prems"(4) le63, of P "ID rc" w]
        by (simp add: auditCommitErr_world)
      show "fst ?res = None \<longrightarrow> int i = max tu (int i)"
        using False by simp
    qed
  next
    case True
    obtain be txn1 w1 where b: "auditBatch P rc i txn w = (be, txn1, w1)"
      by (cases "auditBatch P rc i txn w") auto
    have w1: "logged w1 = logged w"
      using auditBatch_logged [of P rc i txn w] b by simp
    note bs = auditBatch_submits [OF "1.prems"(4,5) b]
    show ?thesis
    proof (cases be)
      case (Some e)
      then have r: "?res = (Some e, w1)"
        using True b by (subst removePods_loop.simps) simp
      show ?thesis
        using r w1 bs Some by (intro stop) simp_all
    next
      case None
      have t1: "\<not> alreadyCommitted (ctx txn1)" "length (kvOps (ctx txn1)) \<le> 2 * (i mod 5)"
        "withoutAudit (concat (txn_calls w1)) @ withoutAudit (kvOps (ctx txn1)) = ?q"
        using bs None by simp_all
      have small: "length (kvOps (ctx txn1)) \<le> 62" "length (kvOps (ctx txn1)) \<le> 63"
        "length (kvOps (ctx txn1)) + 2 \<le> batchBound (Suc i)"
        using t1(2) batchBound_Suc [of i] by simp_all
      have b': "(be, txn1, w1) = auditBatch P rc i txn w" "be = None" "(txn1, w1) = (txn1, w1)"
        using b None by simp_all
      have none: "None = (None :: error option)" by simp
      obtain po pr1 where pa: "PopAny P pr = (po, pr1)"
        by (cases "PopAny P pr") auto
      have step: "\<exists>txn2. unschedule rc txn1 n w1
                     = (None, txn2, w1\<lparr>logged := logged w1 @ [UnschedulingFrom n]\<rparr>)
                  \<and> kvOps (ctx txn2) = kvOps (ctx txn1) @ unscheduleOps rc n
                  \<and> \<not> alreadyCommitted (ctx txn2)" for n
        using unschedule_ok [OF t1(1) small(1), of rc n w1] .
      show ?thesis
      proof (cases po)
        case pn: (Some n)
        have n: "n \<in> pr" "pr1 = pr - {n}"
          using PopAny_Some [OF "1.prems"(1) "1.prems"(2)] pa pn by simp_all
        let ?w2 = "w1\<lparr>logged := logged w1 @ [UnschedulingFrom n]\<rparr>"
        obtain txn2 where u: "unschedule rc txn1 n w1 = (None, txn2, ?w2)"
          "kvOps (ctx txn2) = kvOps (ctx txn1) @ unscheduleOps rc n"
          "\<not> alreadyCommitted (ctx txn2)"
          using step [of n] by blast
        have rec: "?res = removePods_loop P rc cur tu (Suc i) pr1 rs txn2 ?w2"
          using True b None pa pn u(1) by (subst removePods_loop.simps) simp
        have f: "finite pr1" using n(2) "1.prems"(2) by simp
        have bd: "length (kvOps (ctx txn2)) \<le> batchBound (Suc i)"
          using u(2) small(3) by (simp add: unscheduleOps_def)
        have pa': "(po, pr1) = PopAny P pr" "po = Some n"
          using pa pn by simp_all
        have tw: "(txn2, ?w2) = (txn2, ?w2)" by simp
        from "1.IH"(2) [OF True b'(1) b'(2) b'(3) pa'(1) pa'(2) u(1) [symmetric] none tw
            "1.prems"(1) f "1.prems"(3) u(3) bd]
        obtain us vs where r:
          "unscheduledNodes (logged (snd (removePods_loop P rc cur tu (Suc i) pr1 rs txn2 ?w2)))
             = unscheduledNodes (logged ?w2) @ us @ vs"
          "withoutAudit (concat (txn_calls (snd (removePods_loop P rc cur tu (Suc i) pr1 rs txn2 ?w2))))
             = withoutAudit (concat (txn_calls ?w2)) @ withoutAudit (kvOps (ctx txn2))
               @ concat (map (unscheduleOps rc) (us @ vs))"
          "set us \<subseteq> pr1" "set vs \<subseteq> rs" "vs \<noteq> [] \<longrightarrow> set us = pr1"
          "fst (removePods_loop P rc cur tu (Suc i) pr1 rs txn2 ?w2) = None \<longrightarrow>
             int (Suc i) + int (length (us @ vs)) = max tu (int (Suc i))"
          by (elim exE conjE) (rule that)
        have "unscheduledNodes (logged (snd ?res)) = unscheduledNodes (logged w) @ (n # us) @ vs"
          using rec r(1) w1 by (simp add: unscheduledNodes_append)
        moreover have "withoutAudit (concat (txn_calls ?w2)) @ withoutAudit (kvOps (ctx txn2))
                         = ?q @ unscheduleOps rc n"
          using u(2) t1(3) by (simp add: withoutAudit_append withoutAudit_unscheduleOps)
        then have "withoutAudit (concat (txn_calls (snd ?res)))
                     = ?q @ concat (map (unscheduleOps rc) ((n # us) @ vs))"
          using rec r(2) by simp
        moreover have "set (n # us) \<subseteq> pr"
          using r(3) n by auto
        moreover have "vs \<noteq> [] \<longrightarrow> set (n # us) = pr"
          using r(5) n by auto
        moreover have "fst ?res = None \<longrightarrow> int i + int (length ((n # us) @ vs)) = max tu (int i)"
          using rec r(6) True by auto
        ultimately show ?thesis
          using r(4) by (intro exI [of _ "n # us"] exI [of _ vs]) simp
      next
        case pn: None
        have pe: "pr = {}" "pr1 = {}"
          using PopAny_None [of P pr pr1] pa pn by simp_all
        obtain ro rs1 where ra: "PopAny P rs = (ro, rs1)"
          by (cases "PopAny P rs") auto
        have pa': "(po, pr1) = PopAny P pr" "po = None"
          using pa pn by simp_all
        show ?thesis
        proof (cases ro)
          case rn: None
          obtain ce w2 where c: "auditCommitErr P rc txn1 w1 = (ce, w2)"
            by (cases "auditCommitErr P rc txn1 w1") auto
          have l2: "logged w2 = logged w"
            using auditCommitErr_logged [of P rc txn1 w1] c w1 by simp
          have c2: "withoutAudit (concat (txn_calls w2)) = ?q"
            using auditCommit_submits [OF t1(1) small(2), of P "ID rc" w1] c
              auditCommitErr_world [of P rc txn1 w1] t1(3) by simp
          have eq: "?res = (case ce of Some txnErr \<Rightarrow> (Some txnErr, w2)
                            | None \<Rightarrow> (Some (UnableToUnschedule (ReplicasDesired rc) (length cur)), w2))"
            using True b None pa pn ra rn c
            by (subst removePods_loop.simps) simp
          show ?thesis
          proof (rule stop)
            show "unscheduledNodes (logged (snd ?res)) = unscheduledNodes (logged w)"
              using eq l2 by (simp split: option.splits)
            show "withoutAudit (concat (txn_calls (snd ?res))) = ?q"
              using eq c2 by (simp split: option.splits)
            show "fst ?res = None \<longrightarrow> int i = max tu (int i)"
              using eq by (simp split: option.splits)
          qed
        next
          case rn: (Some n)
          have n: "n \<in> rs" "rs1 = rs - {n}"
            using PopAny_Some [OF "1.prems"(1) "1.prems"(3)] ra rn by simp_all
          let ?w2 = "w1\<lparr>logged := logged w1 @ [UnschedulingFrom n]\<rparr>"
          obtain txn2 where u: "unschedule rc txn1 n w1 = (None, txn2, ?w2)"
            "kvOps (ctx txn2) = kvOps (ctx txn1) @ unscheduleOps rc n"
            "\<not> alreadyCommitted (ctx txn2)"
            using step [of n] by blast
          have rec: "?res = removePods_loop P rc cur tu (Suc i) pr1 rs1 txn2 ?w2"
            using True b None pa pn ra rn u(1) by (subst removePods_loop.simps) simp
          have f: "finite pr1" "finite rs1"
            using n(2) pe "1.prems"(3) by simp_all
          have bd: "length (kvOps (ctx txn2)) \<le> batchBound (Suc i)"
            using u(2) small(3) by (simp add: unscheduleOps_def)
          have ra': "(ro, rs1) = PopAny P rs" "ro = Some n"
            using ra rn by simp_all
          have tw: "(txn2, ?w2) = (txn2, ?w2)" by simp
          from "1.IH"(1) [OF True b'(1) b'(2) b'(3) pa'(1) pa'(2) ra'(1) ra'(2)
              u(1) [symmetric] none tw "1.prems"(1) f u(3) bd]
          obtain us vs where r:
            "unscheduledNodes (logged (snd (removePods_loop P rc cur tu (Suc i) pr1 rs1 txn2 ?w2)))
               = unscheduledNodes (logged ?w2) @ us @ vs"
            "withoutAudit (concat (txn_calls (snd (removePods_loop P rc cur tu (Suc i) pr1 rs1 txn2 ?w2))))
               = withoutAudit (concat (txn_calls ?w2)) @ withoutAudit (kvOps (ctx txn2))
                 @ concat (map (unscheduleOps rc) (us @ vs))"
            "set us \<subseteq> pr1" "set vs \<subseteq> rs1" "vs \<noteq> [] \<longrightarrow> set us = pr1"
            "fst (removePods_loop P rc cur tu (Suc i) pr1 rs1 txn2 ?w2) = None \<longrightarrow>
               int (Suc i) + int (length (us @ vs)) = max tu (int (Suc i))"
            by (elim exE conjE) (rule that)
          have use: "us = []"
            using r(3) pe by simp
          have "unscheduledNodes (logged (snd ?res)) = unscheduledNodes (logged w) @ [] @ (n # vs)"
            using rec r(1) w1 use by (simp add: unscheduledNodes_append)
          moreover have "withoutAudit (concat (txn_calls ?w2)) @ withoutAudit (kvOps (ctx txn2))
                           = ?q @ unscheduleOps rc n"
            using u(2) t1(3) by (simp add: withoutAudit_append withoutAudit_unscheduleOps)
          then have "withoutAudit (concat (txn_calls (snd ?res)))
                       = ?q @ concat (map (unscheduleOps rc) ([] @ (n # vs)))"
            using rec r(2) use by simp
          moreover have "set (n # vs) \<subseteq> rs"
            using r(4) n by auto
          moreover have "fst ?res = None \<longrightarrow> int i + int (length ([] @ (n # vs))) = max tu (int i)"
            using rec r(6) True use by auto
          ultimately show ?thesis
            using pe(1) by (intro exI [of _ "[]"] exI [of _ "n # vs"]) simp
        qed
      qed
    qed
  qed
qed

text \<open>
  C8. Whatever element \<^verbatim>\<open>PopAny\<close> takes out of a set, one \<^verbatim>\<open>removePods\<close> pass
  unschedules first nodes of current that are not eligible (\<open>us\<close>), then nodes of
  current that are eligible (\<open>vs\<close>), and if any eligible node is unscheduled at
  all, every node of current that is not eligible has been unscheduled before it.
  This is the order of the log lines and of the operations that the pass submits to
  the store, whatever the store answers: for each of these nodes in turn, the
  deletion of its intent and the removal of its labels. When the pass succeeds, the
  number of nodes unscheduled is the number of pods to remove (a difference of Go
  \<^verbatim>\<open>int\<close>s), if that is positive, and zero otherwise.
\<close>

theorem removePods_prefers_ineligible:
  assumes "\<forall>S. finite S \<and> S \<noteq> {} \<longrightarrow> pick P S \<in> S"
  shows "\<exists>us vs. unscheduledNodes (logged (snd (removePods P rc current eligible w)))
                   = unscheduledNodes (logged w) @ us @ vs
               \<and> withoutAudit (concat (txn_calls (snd (removePods P rc current eligible w))))
                   = withoutAudit (concat (txn_calls w))
                     @ concat (map (\<lambda>node.
                          [DeletePodOp INTENT_TREE node (ManifestID (Manifest rc)),
                           RemoveLabelsOp (MakePodLabelKey node (ManifestID (Manifest rc)))
                             (dom (computePodLabels rc))])
                         (us @ vs))
               \<and> set us \<subseteq> set (Nodes current) - set eligible
               \<and> set vs \<subseteq> set (Nodes current) \<inter> set eligible
               \<and> (vs \<noteq> [] \<longrightarrow> set us = set (Nodes current) - set eligible)
               \<and> (fst (removePods P rc current eligible w) = None \<longrightarrow>
                    int (length (us @ vs))
                      = max (wrapInt (int (length current) - ReplicasDesired rc)) 0)"
proof -
  let ?pr = "set (Nodes current) - set eligible"
  let ?rs = "set (Nodes current) - ?pr"
  let ?tu = "wrapInt (int (length current) - ReplicasDesired rc)"
  let ?w1 = "w\<lparr>logged := logged w @ [NeedToUnschedule ?tu current]\<rparr>"
  let ?txn = "newAuditingTransaction (set (Nodes current))"
  have eq: "removePods P rc current eligible w
              = removePods_loop P rc current ?tu 0 ?pr ?rs ?txn ?w1"
    by (simp add: removePods_def Let_def)
  have rs: "?rs = set (Nodes current) \<inter> set eligible"
    by auto
  have fin: "finite ?pr" "finite ?rs"
    by simp_all
  have t: "\<not> alreadyCommitted (ctx ?txn)" "length (kvOps (ctx ?txn)) \<le> batchBound 0"
    "withoutAudit (kvOps (ctx ?txn)) = []"
    by (simp_all add: newAuditingTransaction_def newTx_def withoutAudit_def)
  let ?L = "removePods_loop P rc current ?tu 0 ?pr ?rs ?txn ?w1"
  from removePods_loop_unschedules [OF assms fin t(1,2), of rc current ?tu ?w1]
  obtain us vs where r0:
    "unscheduledNodes (logged (snd ?L)) = unscheduledNodes (logged ?w1) @ us @ vs"
    "withoutAudit (concat (txn_calls (snd ?L)))
       = withoutAudit (concat (txn_calls ?w1)) @ withoutAudit (kvOps (ctx ?txn))
         @ concat (map (unscheduleOps rc) (us @ vs))"
    "set us \<subseteq> ?pr" "set vs \<subseteq> ?rs" "vs \<noteq> [] \<longrightarrow> set us = ?pr"
    "fst ?L = None \<longrightarrow> int 0 + int (length (us @ vs)) = max ?tu (int 0)"
    by (elim exE conjE) (rule that)
  note r = r0 [folded eq]
  have l: "unscheduledNodes (logged ?w1) = unscheduledNodes (logged w)"
    by (simp add: unscheduledNodes_append)
  have uo: "unscheduleOps rc = (\<lambda>node.
                          [DeletePodOp INTENT_TREE node (ManifestID (Manifest rc)),
                           RemoveLabelsOp (MakePodLabelKey node (ManifestID (Manifest rc)))
                             (dom (computePodLabels rc))])"
    by (rule ext) (simp add: unscheduleOps_def)
  have a: "unscheduledNodes (logged (snd (removePods P rc current eligible w)))
          = unscheduledNodes (logged w) @ us @ vs"
    using r(1) l by simp
  have b: "withoutAudit (concat (txn_calls (snd (removePods P rc current eligible w))))
       = withoutAudit (concat (txn_calls w)) @ concat (map (unscheduleOps rc) (us @ vs))"
    using r(2) t(3) by simp
  have c: "set vs \<subseteq> set (Nodes current) \<inter> set eligible"
    using r(4) rs by simp
  have d: "fst (removePods P rc current eligible w) = None \<longrightarrow>
             int (length (us @ vs)) = max ?tu 0"
    using r(6) by simp
  show ?thesis
    using a b c d r(3) r(5) unfolding uo
    by (intro exI [of _ us] exI [of _ vs]) simp
qed

theorem removePods_prefers_ineligible_witness:
  "unscheduledNodes (logged (snd (removePods (quiet [] [''n2'', ''n3''] (\<lambda>n. None)) rc0
       [\<lparr>Node = ''n1'', PodID = ''thepod''\<rparr>, \<lparr>Node = ''n2'', PodID = ''thepod''\<rparr>,
        \<lparr>Node = ''n3'', PodID = ''thepod''\<rparr>] [''n2'', ''n3''] w0))) = [''n1'', ''n2'']
   \<and> (\<exists>us vs. [''n1'', ''n2''] = us @ vs \<and> set us = {''n1''} \<and> vs \<noteq> []
          \<and> set vs \<subseteq> {''n2'', ''n3''}
          \<and> withoutAudit (concat (txn_calls (snd (removePods
                 (quiet [] [''n2'', ''n3''] (\<lambda>n. None)) rc0
                 [\<lparr>Node = ''n1'', PodID = ''thepod''\<rparr>, \<lparr>Node = ''n2'', PodID = ''thepod''\<rparr>,
                  \<lparr>Node = ''n3'', PodID = ''thepod''\<rparr>] [''n2'', ''n3''] w0))))
              = [DeletePodOp INTENT_TREE ''n1'' ''thepod'',
                 RemoveLabelsOp ''n1/thepod'' (dom (computePodLabels rc0)),
                 DeletePodOp INTENT_TREE ''n2'' ''thepod'',
                 RemoveLabelsOp ''n2/thepod'' (dom (computePodLabels rc0))])
   \<and> last (concat (txn_calls (snd (removePods (quiet [] [''n2'', ''n3''] (\<lambda>n. None)) rc0
       [\<lparr>Node = ''n1'', PodID = ''thepod''\<rparr>, \<lparr>Node = ''n2'', PodID = ''thepod''\<rparr>,
        \<lparr>Node = ''n3'', PodID = ''thepod''\<rparr>] [''n2'', ''n3''] w0))))
     = AuditLogOp ''rc1'' {''n1'', ''n2'', ''n3''} {''n3''}"
proof -
  let ?P = "quiet [] [''n2'', ''n3''] (\<lambda>n. None)"
  let ?cur = "[\<lparr>Node = ''n1'', PodID = ''thepod''\<rparr>, \<lparr>Node = ''n2'', PodID = ''thepod''\<rparr>,
        \<lparr>Node = ''n3'', PodID = ''thepod''\<rparr>]"
  let ?r = "removePods ?P rc0 ?cur [''n2'', ''n3''] w0"
  have h: "\<forall>S. finite S \<and> S \<noteq> {} \<longrightarrow> pick ?P S \<in> S"
    by (simp add: quiet_def)
  have ev: "unscheduledNodes (logged (snd ?r)) = [''n1'', ''n2'']"
    by (simp add: rc_defs scenario_defs Let_def insert_Diff_if)
  have sets: "set (Nodes ?cur) - set [''n2'', ''n3''] = {''n1''}"
    "set (Nodes ?cur) \<inter> set [''n2'', ''n3''] = {''n2'', ''n3''}"
    by (auto simp: Nodes_def)
  have l0: "unscheduledNodes (logged w0) = []" "txn_calls w0 = []"
    by (simp_all add: w0_def)
  have ids: "ManifestID (Manifest rc0) = ''thepod''"
    by (simp add: rc0_def man0_def)
  from removePods_prefers_ineligible [OF h, of rc0 ?cur "[''n2'', ''n3'']" w0]
  obtain us vs where r: "unscheduledNodes (logged (snd ?r)) = unscheduledNodes (logged w0) @ us @ vs"
    "withoutAudit (concat (txn_calls (snd ?r)))
       = withoutAudit (concat (txn_calls w0))
         @ concat (map (\<lambda>node.
              [DeletePodOp INTENT_TREE node (ManifestID (Manifest rc0)),
               RemoveLabelsOp (MakePodLabelKey node (ManifestID (Manifest rc0)))
                 (dom (computePodLabels rc0))])
             (us @ vs))"
    "set us \<subseteq> set (Nodes ?cur) - set [''n2'', ''n3'']"
    "set vs \<subseteq> set (Nodes ?cur) \<inter> set [''n2'', ''n3'']"
    "vs \<noteq> [] \<longrightarrow> set us = set (Nodes ?cur) - set [''n2'', ''n3'']"
    by (elim exE conjE) (rule that, assumption+)
  have uv: "us @ vs = [''n1'', ''n2'']"
    using r(1) ev l0 by simp
  have "''n2'' \<in> set (us @ vs)"
    unfolding uv by simp
  moreover have "''n2'' \<notin> set us"
    using r(3) sets(1) by auto
  ultimately have vne: "vs \<noteq> []"
    by auto
  then have su: "set us = {''n1''}"
    using r(5) sets(1) by simp
  have ops: "withoutAudit (concat (txn_calls (snd ?r)))
              = [DeletePodOp INTENT_TREE ''n1'' ''thepod'',
                 RemoveLabelsOp ''n1/thepod'' (dom (computePodLabels rc0)),
                 DeletePodOp INTENT_TREE ''n2'' ''thepod'',
                 RemoveLabelsOp ''n2/thepod'' (dom (computePodLabels rc0))]"
    using r(2) uv l0 ids by (simp add: withoutAudit_def MakePodLabelKey_def)
  have "[''n1'', ''n2''] = us @ vs \<and> set us = {''n1''} \<and> vs \<noteq> []
          \<and> set vs \<subseteq> {''n2'', ''n3''}
          \<and> withoutAudit (concat (txn_calls (snd ?r)))
              = [DeletePodOp INTENT_TREE ''n1'' ''thepod'',
                 RemoveLabelsOp ''n1/thepod'' (dom (computePodLabels rc0)),
                 DeletePodOp INTENT_TREE ''n2'' ''thepod'',
                 RemoveLabelsOp ''n2/thepod'' (dom (computePodLabels rc0))]"
    using uv su vne r(4) sets(2) ops by simp
  moreover have "last (concat (txn_calls (snd ?r)))
                   = AuditLogOp ''rc1'' {''n1'', ''n2'', ''n3''} {''n3''}"
    by (simp add: rc_defs scenario_defs Let_def insert_Diff_if)
  ultimately show ?thesis
    using ev by blast
qed

lemma Commit_accept:
  assumes "\<forall>w ops. commitOutcome (Txn P w ops) = None" and "\<not> alreadyCommitted t"
  shows "commitOutcome (fst (Commit P t w)) = None
       \<and> concat (txn_calls (snd (Commit P t w))) = concat (txn_calls w) @ kvOps t
       \<and> alerts (snd (Commit P t w)) = alerts w"
  using assms by (simp add: Commit_def commitOutcome_def)

lemma txBatch_accept:
  assumes "\<forall>w ops. commitOutcome (Txn P w ops) = None"
    and "\<not> alreadyCommitted t" and "length (kvOps t) \<le> batchBound i"
  shows "\<exists>t1 w1. txBatch P i t w = (None, t1, w1) \<and> \<not> alreadyCommitted t1
           \<and> length (kvOps t1) \<le> 2 * (i mod 5)
           \<and> concat (txn_calls w1) @ kvOps t1 = concat (txn_calls w) @ kvOps t"
proof (cases "i mod 5 = 0 \<and> i > 0")
  case True
  obtain r w1 where c: "Commit P t w = (r, w1)"
    by (cases "Commit P t w") auto
  have "commitOutcome r = None" "concat (txn_calls w1) = concat (txn_calls w) @ kvOps t"
    using Commit_accept [OF assms(1,2), of w] c by simp_all
  then have "txBatch P i t w = (None, newTx, w1)"
    "concat (txn_calls w1) @ kvOps newTx = concat (txn_calls w) @ kvOps t"
    using True c by (simp_all add: txBatch_def newTx_def)
  then show ?thesis
    by (intro exI [of _ newTx] exI [of _ w1]) (simp add: newTx_def)
next
  case False
  then have "txBatch P i t w = (None, t, w)"
    by (auto simp: txBatch_def)
  then show ?thesis
    using assms(2,3) batchBound_head [OF False]
    by (intro exI [of _ t] exI [of _ w]) simp
qed

lemma ensureConsistency_loop_step:
  assumes "Pod P w1 INTENT_TREE (Node pod) (PodID pod) = (intent, rerr)"
    and "rerr = None \<or> rerr = Some NoCurrentManifest"
    and "txBatch P i t w = (None, t1, w1)"
    and "\<not> alreadyCommitted t1" and "length (kvOps t1) \<le> 62"
  shows "\<exists>w'. txn_calls w' = txn_calls w1
            \<and> ensureConsistency_loop P rc sha i (pod # pods) t w
                = ensureConsistency_loop P rc sha (Suc i) pods
                    (if inconsistent intent sha
                     then t1\<lparr>kvOps := kvOps t1 @ scheduleOps rc (Node pod)\<rparr> else t1) w'"
proof (cases intent)
  case None
  let ?w3 = "w1\<lparr>reads := reads w1 @ [ReadPod INTENT_TREE (Node pod) (PodID pod)]\<rparr>"
  let ?w4 = "?w3\<lparr>logged := logged ?w3 @ [FoundInconsistency (Node pod) []]\<rparr>"
  let ?w5 = "?w4\<lparr>logged := logged ?w4 @ [SchedulingOn (Node pod)]\<rparr>"
  have "ensureConsistency_loop P rc sha i (pod # pods) t w
          = ensureConsistency_loop P rc sha (Suc i) pods
              (t1\<lparr>kvOps := kvOps t1 @ scheduleOps rc (Node pod)\<rparr>) ?w5"
    using assms None scheduleNoAudit_ok [OF assms(4,5), of rc "Node pod" ?w4]
    by (auto simp: Let_def)
  moreover have "txn_calls ?w5 = txn_calls w1" by simp
  ultimately show ?thesis
    using None by (intro exI [of _ ?w5]) (simp add: inconsistent_def)
next
  case (Some m)
  let ?w2 = "w1\<lparr>reads := reads w1 @ [ReadPod INTENT_TREE (Node pod) (PodID pod)]\<rparr>"
  let ?w3 = "case SHA m of Inl e \<Rightarrow> ?w2\<lparr>logged := logged ?w2 @ [CouldNotHash (Node pod) e]\<rparr>
             | Inr s \<Rightarrow> ?w2"
  have w3: "txn_calls ?w3 = txn_calls w1"
    by (simp split: sum.splits)
  show ?thesis
  proof (cases "intentSHA m = sha")
    case True
    have "ensureConsistency_loop P rc sha i (pod # pods) t w
            = ensureConsistency_loop P rc sha (Suc i) pods t1 ?w3"
      using assms Some True
      by (auto simp: Let_def intentSHA_def split: sum.splits)
    then show ?thesis
      using Some True w3 by (intro exI [of _ ?w3]) (simp add: inconsistent_def)
  next
    case False
    let ?w4 = "?w3\<lparr>logged := logged ?w3 @ [FoundInconsistency (Node pod) (intentSHA m)]\<rparr>"
    let ?w5 = "?w4\<lparr>logged := logged ?w4 @ [SchedulingOn (Node pod)]\<rparr>"
    have "ensureConsistency_loop P rc sha i (pod # pods) t w
            = ensureConsistency_loop P rc sha (Suc i) pods
                (t1\<lparr>kvOps := kvOps t1 @ scheduleOps rc (Node pod)\<rparr>) ?w5"
      using assms Some False scheduleNoAudit_ok [OF assms(4,5), of rc "Node pod" ?w4]
      by (auto simp: Let_def intentSHA_def split: sum.splits)
    moreover have "txn_calls ?w5 = txn_calls w1"
      using w3 by simp
    ultimately show ?thesis
      using Some False by (intro exI [of _ ?w5]) (simp add: inconsistent_def)
  qed
qed

lemma ensureConsistency_loop_accept:
  assumes "\<forall>w node pid. Pod P w INTENT_TREE node pid = (intent node pid, rerr node pid)"
    and "\<forall>w ops. commitOutcome (Txn P w ops) = None"
    and "\<forall>p \<in> set pods. rerr (Node p) (PodID p) = None
                        \<or> rerr (Node p) (PodID p) = Some NoCurrentManifest"
    and "\<not> alreadyCommitted t" and "length (kvOps t) \<le> batchBound i"
  shows "fst (ensureConsistency_loop P rc sha i pods t w) = None
       \<and> concat (txn_calls (snd (ensureConsistency_loop P rc sha i pods t w)))
           = concat (txn_calls w) @ kvOps t
             @ concat (map (\<lambda>p. if inconsistent (intent (Node p) (PodID p)) sha
                                 then scheduleOps rc (Node p) else []) pods)"
  using assms(3,4,5)
proof (induction pods arbitrary: i t w)
  case Nil
  show ?case
    using Commit_accept [OF assms(2) Nil(2), of w]
    by (auto split: prod.splits)
next
  case (Cons pod pods)
  obtain t1 w1 where b: "txBatch P i t w = (None, t1, w1)" "\<not> alreadyCommitted t1"
    "length (kvOps t1) \<le> 2 * (i mod 5)"
    "concat (txn_calls w1) @ kvOps t1 = concat (txn_calls w) @ kvOps t"
    using txBatch_accept [OF assms(2) Cons.prems(2,3), of w] by blast
  have small: "length (kvOps t1) \<le> 62" "length (kvOps t1) + 2 \<le> batchBound (Suc i)"
    using b(3) batchBound_Suc [of i] by simp_all
  let ?int = "intent (Node pod) (PodID pod)"
  let ?t' = "if inconsistent ?int sha
             then t1\<lparr>kvOps := kvOps t1 @ scheduleOps rc (Node pod)\<rparr> else t1"
  have rd: "Pod P w1 INTENT_TREE (Node pod) (PodID pod) = (?int, rerr (Node pod) (PodID pod))"
    using assms(1) by simp
  have re: "rerr (Node pod) (PodID pod) = None \<or> rerr (Node pod) (PodID pod) = Some NoCurrentManifest"
    using Cons.prems(1) by simp
  from ensureConsistency_loop_step [OF rd re b(1) b(2) small(1), of rc sha pods]
  obtain w' where w': "txn_calls w' = txn_calls w1"
    "ensureConsistency_loop P rc sha i (pod # pods) t w
       = ensureConsistency_loop P rc sha (Suc i) pods ?t' w'"
    by blast
  have t': "\<not> alreadyCommitted ?t'" "length (kvOps ?t') \<le> batchBound (Suc i)"
    using b(2) small(2) by (simp_all add: scheduleOps_def)
  have rest: "\<forall>p \<in> set pods. rerr (Node p) (PodID p) = None
                        \<or> rerr (Node p) (PodID p) = Some NoCurrentManifest"
    using Cons.prems(1) by simp
  have kv: "kvOps ?t' = kvOps t1 @ (if inconsistent ?int sha then scheduleOps rc (Node pod) else [])"
    by simp
  have "concat (txn_calls w') @ kvOps ?t'
          = concat (txn_calls w) @ kvOps t
            @ (if inconsistent ?int sha then scheduleOps rc (Node pod) else [])"
    using w'(1) b(4) kv by (metis append.assoc)
  then show ?case
    using Cons.IH [OF rest t', of w'] w'(2) by simp
qed

text \<open>
  C2 (amended). When the controller's manifest has a SHA, every read of a stored
  intent answers without an error other than \<^verbatim>\<open>NoCurrentManifest\<close> and does not change
  during the pass, and the store accepts every commit, \<^verbatim>\<open>ensureConsistency\<close>
  succeeds and the operations it has submitted are, placement by placement in the
  order of \<open>current\<close>, the label write of the computed pod labels followed by the
  intent write of the controller's manifest for exactly those nodes whose stored
  intent is absent or has a SHA other than the SHA of the controller's manifest, and
  nothing for the other nodes.
\<close>

theorem ensureConsistency_repairs:
  assumes "SHA (Manifest rc) = Inr manifestSHA"
    and "\<forall>w node pid. Pod P w INTENT_TREE node pid = (intent node pid, rerr node pid)"
    and "\<forall>p \<in> set current. rerr (Node p) (PodID p) = None
                        \<or> rerr (Node p) (PodID p) = Some NoCurrentManifest"
    and "\<forall>w ops. commitOutcome (Txn P w ops) = None"
  shows "fst (ensureConsistency P rc current w) = None
       \<and> concat (txn_calls (snd (ensureConsistency P rc current w)))
           = concat (txn_calls w)
             @ concat (map (\<lambda>p. if inconsistent (intent (Node p) (PodID p)) manifestSHA
                                 then scheduleOps rc (Node p) else []) current)"
proof -
  have "\<not> alreadyCommitted newTx" "length (kvOps newTx) \<le> batchBound 0"
    by (simp_all add: newTx_def)
  from ensureConsistency_loop_accept [OF assms(2) assms(4) assms(3) this, of rc manifestSHA w]
  show ?thesis
    using assms(1) by (simp add: ensureConsistency_def newTx_def)
qed

theorem ensureConsistency_repairs_witness:
  "concat (txn_calls (snd (ensureConsistency
       (quiet [] [] ((\<lambda>n. None)(''n2'' \<mapsto> manOld, ''n3'' \<mapsto> man0))) rc0
       [\<lparr>Node = ''n1'', PodID = ''thepod''\<rparr>, \<lparr>Node = ''n2'', PodID = ''thepod''\<rparr>,
        \<lparr>Node = ''n3'', PodID = ''thepod''\<rparr>] w0)))
     = scheduleOps rc0 ''n1'' @ scheduleOps rc0 ''n2''"
proof -
  let ?st = "(\<lambda>n. None)(''n2'' \<mapsto> manOld, ''n3'' \<mapsto> man0)"
  let ?P = "quiet [] [] ?st"
  let ?cur = "[\<lparr>Node = ''n1'', PodID = ''thepod''\<rparr>, \<lparr>Node = ''n2'', PodID = ''thepod''\<rparr>,
        \<lparr>Node = ''n3'', PodID = ''thepod''\<rparr>]"
  let ?rerr = "\<lambda>(node :: NodeName) (pid :: PodID).
                 if ?st node = None then Some NoCurrentManifest else None"
  have h1: "SHA (Manifest rc0) = Inr ''new''"
    by (simp add: rc0_def man0_def)
  have h2: "\<forall>w node pid. Pod ?P w INTENT_TREE node pid = (?st node, ?rerr node pid)"
    by (simp add: quiet_def)
  have h3: "\<forall>p \<in> set ?cur. ?rerr (Node p) (PodID p) = None
                        \<or> ?rerr (Node p) (PodID p) = Some NoCurrentManifest"
    by simp
  have h4: "\<forall>w ops. commitOutcome (Txn ?P w ops) = None"
    by (simp add: quiet_def commitOutcome_def)
  have inc: "inconsistent (?st ''n1'') ''new''" "inconsistent (?st ''n2'') ''new''"
    "\<not> inconsistent (?st ''n3'') ''new''"
    by (simp_all add: inconsistent_def intentSHA_def manOld_def man0_def)
  have "txn_calls w0 = []"
    by (simp add: w0_def)
  then show ?thesis
    using ensureConsistency_repairs [OF h1 h2 h3 h4, of w0] inc
    by simp
qed







end
